theory Spec2Isabelle
  imports Main "HOL-Library.List_Lexorder" "HOL-Library.Char_ord"
begin

section \<open>Data model\<close>

text \<open>
  The records of \<^verbatim>\<open>types/task.ts\<close>, \<^verbatim>\<open>types/project.ts\<close> and \<^verbatim>\<open>types/filter.ts\<close>.
  A JavaScript \<^verbatim>\<open>Date\<close> is its \<^verbatim>\<open>getTime()\<close> value: the milliseconds since the
  epoch, an integer (an invalid date has no model). An optional property (\<^verbatim>\<open>description?: string\<close>) is an
  \<open>option\<close>, \<open>None\<close> standing for \<^verbatim>\<open>undefined\<close>. The \<^verbatim>\<open>id\<close> fields are named
  \<open>taskId\<close> and \<open>projId\<close>, and the fields of a project carry the prefix \<open>proj\<close> where
  a task has a field of the same name.
\<close>

type_synonym Date = int

datatype TaskPriority = LOW | MEDIUM | HIGH

datatype TaskStatus = TODO | IN_PROGRESS | COMPLETED

record Task =
  taskId :: string
  title :: string
  description :: "string option"
  completed :: bool
  status :: TaskStatus
  priority :: TaskPriority
  projectId :: "string option"
  dueDate :: "Date option"
  createdAt :: Date
  updatedAt :: Date
  tags :: "string list option"

record CreateTaskInput =
  in_title :: string
  in_description :: "string option"
  in_priority :: "TaskPriority option"
  in_projectId :: "string option"
  in_dueDate :: "Date option"
  in_tags :: "string list option"

text \<open>
  \<^verbatim>\<open>Partial<Omit<Task, "id" | "createdAt">>\<close>, the updates of \<^verbatim>\<open>updateTask\<close>: every
  property may be absent (\<open>None\<close>). A property that is optional in \<^verbatim>\<open>Task\<close> may
  also be present with the value \<^verbatim>\<open>undefined\<close> (\<open>Some None\<close>), which the object
  spread copies over the old value; \<^verbatim>\<open>updateTask\<close> itself produces such an update
  when it finds no default project.
\<close>

record TaskUpdates =
  u_title :: "string option"
  u_description :: "string option option"
  u_completed :: "bool option"
  u_status :: "TaskStatus option"
  u_priority :: "TaskPriority option"
  u_projectId :: "string option option"
  u_dueDate :: "Date option option"
  u_updatedAt :: "Date option"
  u_tags :: "string list option option"

datatype ProjectColor = BLUE | GREEN | RED | YELLOW | PURPLE | PINK | ORANGE | GRAY

text \<open>
  \<^verbatim>\<open>isDefault?: boolean\<close> is only ever read for its truthiness, so the absent
  property is \<open>False\<close>.
\<close>

record Project =
  projId :: string
  name :: string
  projDescription :: "string option"
  color :: ProjectColor
  isDefault :: bool
  projCreatedAt :: Date
  projUpdatedAt :: Date

section \<open>The store and its environment\<close>

text \<open>
  \<^verbatim>\<open>LocalStorageService\<close> keeps two collections, under the keys
  \<^verbatim>\<open>todoapp_tasks\<close> and \<^verbatim>\<open>todoapp_projects\<close>. A missing key reads as the empty
  list (the default value of \<^verbatim>\<open>get\<close>), so each collection is a list. The browser's
  store is taken to be available and to have room: \<^verbatim>\<open>set\<close> stores the value and
  returns \<^verbatim>\<open>true\<close>. Serialising a record to JSON and reading it back
  (\<^verbatim>\<open>new Date(task.createdAt)\<close>) gives the same timestamps.

  What an operation reads from outside the store is its environment: the clock
  (\<^verbatim>\<open>new Date()\<close>, read as one instant for the whole synchronous call) and the
  strings the two private \<^verbatim>\<open>generateId\<close> methods return.
\<close>

record Store =
  tasks :: "Task list"
  projects :: "Project list"

record Env =
  now :: Date
  generatedTaskId :: string
  generatedProjectId :: string

text \<open>JavaScript truthiness of a \<^verbatim>\<open>string | undefined\<close>: the empty string is falsy.\<close>

fun truthy :: "string option \<Rightarrow> bool" where
  "truthy None = False"
| "truthy (Some s) = (s \<noteq> [])"

text \<open>\<^verbatim>\<open>Array.prototype.findIndex\<close>, with \<open>None\<close> for \<^verbatim>\<open>-1\<close>.\<close>

fun findIndex :: "('a \<Rightarrow> bool) \<Rightarrow> 'a list \<Rightarrow> nat option" where
  "findIndex P [] = None"
| "findIndex P (x # xs) =
     (if P x then Some 0 else map_option Suc (findIndex P xs))"

section \<open>ProjectStorageService (services/projectStorage.ts)\<close>

definition saveProjects :: "Project list \<Rightarrow> Store \<Rightarrow> bool \<times> Store" where
  "saveProjects ps st = (True, st\<lparr>projects := ps\<rparr>)"

text \<open>\<^verbatim>\<open>{...DEFAULT_PROJECT, id: this.generateId(), createdAt: now, updatedAt: now}\<close>\<close>

definition createDefaultProject :: "Env \<Rightarrow> Store \<Rightarrow> Project \<times> Store" where
  "createDefaultProject env st =
     (let defaultProject =
            \<lparr>projId = generatedProjectId env, name = ''Personal'',
             projDescription = Some ''Your personal tasks and reminders'',
             color = BLUE, isDefault = True,
             projCreatedAt = now env, projUpdatedAt = now env\<rparr>
      in (defaultProject, snd (saveProjects [defaultProject] st)))"

definition getProjects :: "Env \<Rightarrow> Store \<Rightarrow> Project list \<times> Store" where
  "getProjects env st =
     (if length (projects st) = 0
      then (let (defaultProject, st') = createDefaultProject env st
            in ([defaultProject], st'))
      else (projects st, st))"

definition getDefaultProject :: "Env \<Rightarrow> Store \<Rightarrow> Project option \<times> Store" where
  "getDefaultProject env st =
     (let (ps, st') = getProjects env st in (find isDefault ps, st'))"

definition projectExists :: "Env \<Rightarrow> string \<Rightarrow> Store \<Rightarrow> bool \<times> Store" where
  "projectExists env pid st =
     (let (ps, st') = getProjects env st in (pid \<in> set (map projId ps), st'))"

definition ProjectStorage_deleteProject :: "Env \<Rightarrow> string \<Rightarrow> Store \<Rightarrow> bool \<times> Store" where
  "ProjectStorage_deleteProject env pid st =
     (let (ps, st') = getProjects env st
      in case find (\<lambda>p. projId p = pid) ps of
           None \<Rightarrow> (False, st')
         | Some project \<Rightarrow>
             if isDefault project then (False, st')
             else saveProjects (filter (\<lambda>p. projId p \<noteq> pid) ps) st')"

section \<open>TaskStorageService (services/taskStorage.ts)\<close>

text \<open>
  The class that the hooks call: the first one in the file, which works with
  \<^verbatim>\<open>ProjectStorageService\<close>. (The file goes on with an older class of the same
  name that keeps the projects itself; its \<^verbatim>\<open>addTask\<close> stores \<^verbatim>\<open>input.projectId\<close>
  unchecked, and its other task operations are the same.)
\<close>

definition getTasks :: "Store \<Rightarrow> Task list" where
  "getTasks st = tasks st"

definition saveTasks :: "Task list \<Rightarrow> Store \<Rightarrow> bool \<times> Store" where
  "saveTasks ts st = (True, st\<lparr>tasks := ts\<rparr>)"

text \<open>
  \<^verbatim>\<open>addTask\<close>: the project id falls back to the default project's when it is
  falsy, and again when it names no project. No property of the input is validated
  otherwise. \<^verbatim>\<open>input.priority || "medium"\<close> and \<^verbatim>\<open>input.tags || []\<close> replace
  an absent property only: every priority string and every array is truthy.
\<close>

definition addTask :: "Env \<Rightarrow> CreateTaskInput \<Rightarrow> Store \<Rightarrow> Task \<times> Store" where
  "addTask env input st =
     (let (projectId1, st1) =
            (if \<not> truthy (in_projectId input)
             then (let (defaultProject, s) = getDefaultProject env st
                   in (map_option projId defaultProject, s))
             else (in_projectId input, st));
          (projectId2, st2) =
            (if truthy projectId1
             then (let (ex, s) = projectExists env (the projectId1) st1
                   in if \<not> ex
                      then (let (defaultProject, s') = getDefaultProject env s
                            in (map_option projId defaultProject, s'))
                      else (projectId1, s))
             else (projectId1, st1));
          newTask =
            \<lparr>taskId = generatedTaskId env, title = in_title input,
             description = in_description input, completed = False, status = TODO,
             priority = (case in_priority input of None \<Rightarrow> MEDIUM | Some p \<Rightarrow> p),
             projectId = projectId2, dueDate = in_dueDate input,
             createdAt = now env, updatedAt = now env,
             tags = Some (case in_tags input of None \<Rightarrow> [] | Some ts \<Rightarrow> ts)\<rparr>
      in (newTask, snd (saveTasks (getTasks st2 @ [newTask]) st2)))"

text \<open>The object spread \<^verbatim>\<open>{...task, ...updates}\<close>: a present property wins.\<close>

definition spread :: "Task \<Rightarrow> TaskUpdates \<Rightarrow> Task" where
  "spread t u =
     t\<lparr>title := (case u_title u of None \<Rightarrow> title t | Some v \<Rightarrow> v),
       description := (case u_description u of None \<Rightarrow> description t | Some v \<Rightarrow> v),
       completed := (case u_completed u of None \<Rightarrow> completed t | Some v \<Rightarrow> v),
       status := (case u_status u of None \<Rightarrow> status t | Some v \<Rightarrow> v),
       priority := (case u_priority u of None \<Rightarrow> priority t | Some v \<Rightarrow> v),
       projectId := (case u_projectId u of None \<Rightarrow> projectId t | Some v \<Rightarrow> v),
       dueDate := (case u_dueDate u of None \<Rightarrow> dueDate t | Some v \<Rightarrow> v),
       updatedAt := (case u_updatedAt u of None \<Rightarrow> updatedAt t | Some v \<Rightarrow> v),
       tags := (case u_tags u of None \<Rightarrow> tags t | Some v \<Rightarrow> v)\<rparr>"

text \<open>
  \<^verbatim>\<open>updateTask\<close>: \<open>None\<close> for an unknown id. The project id of the updates is
  checked only when it is truthy (\<^verbatim>\<open>updates.projectId && ...\<close>).
\<close>

definition updateTask :: "Env \<Rightarrow> string \<Rightarrow> TaskUpdates \<Rightarrow> Store \<Rightarrow> Task option \<times> Store" where
  "updateTask env tid updates st =
     (let ts = getTasks st
      in case findIndex (\<lambda>task. taskId task = tid) ts of
           None \<Rightarrow> (None, st)
         | Some taskIndex \<Rightarrow>
             (let (updates', st1) =
                    (case u_projectId updates of
                       Some (Some pid) \<Rightarrow>
                         if pid \<noteq> []
                         then (let (ex, s) = projectExists env pid st
                               in if \<not> ex
                                  then (let (defaultProject, s') = getDefaultProject env s
                                        in (updates\<lparr>u_projectId :=
                                              Some (map_option projId defaultProject)\<rparr>, s'))
                                  else (updates, s))
                         else (updates, st)
                     | _ \<Rightarrow> (updates, st));
                  updatedTask = (spread (ts ! taskIndex) updates')\<lparr>updatedAt := now env\<rparr>
              in (Some updatedTask, snd (saveTasks (ts[taskIndex := updatedTask]) st1))))"

definition deleteTask :: "string \<Rightarrow> Store \<Rightarrow> bool \<times> Store" where
  "deleteTask tid st =
     (let ts = getTasks st;
          filteredTasks = filter (\<lambda>task. taskId task \<noteq> tid) ts
      in if length filteredTasks = length ts then (False, st)
         else saveTasks filteredTasks st)"

definition noUpdates :: TaskUpdates where
  "noUpdates =
     \<lparr>u_title = None, u_description = None, u_completed = None, u_status = None,
      u_priority = None, u_projectId = None, u_dueDate = None, u_updatedAt = None,
      u_tags = None\<rparr>"

definition toggleTask :: "Env \<Rightarrow> string \<Rightarrow> Store \<Rightarrow> Task option \<times> Store" where
  "toggleTask env tid st =
     (case find (\<lambda>t. taskId t = tid) (getTasks st) of
        None \<Rightarrow> (None, st)
      | Some task \<Rightarrow>
          (let c = \<not> completed task
           in updateTask env tid
                (noUpdates\<lparr>u_completed := Some c,
                   u_status := Some (if c then COMPLETED else TODO)\<rparr>) st))"

definition clearCompletedTasks :: "Store \<Rightarrow> nat \<times> Store" where
  "clearCompletedTasks st =
     (let ts = getTasks st;
          activeTasks = filter (\<lambda>task. \<not> completed task) ts;
          deletedCount = length ts - length activeTasks
      in (deletedCount, snd (saveTasks activeTasks st)))"

text \<open>
  \<^verbatim>\<open>handleProjectDeletion\<close>: \<^verbatim>\<open>tasksToMove\<close> holds the very objects of
  \<^verbatim>\<open>tasks\<close>, so assigning to them changes the list that is saved.
\<close>

definition handleProjectDeletion :: "Env \<Rightarrow> string \<Rightarrow> Store \<Rightarrow> bool \<times> Store" where
  "handleProjectDeletion env deletedProjectId st =
     (let (d, st1) = getDefaultProject env st
      in case d of
           None \<Rightarrow> (False, st1)
         | Some defaultProject \<Rightarrow>
             (let ts = getTasks st1;
                  tasksToMove = filter (\<lambda>task. projectId task = Some deletedProjectId) ts
              in if length tasksToMove = 0 then (True, st1)
                 else saveTasks
                        (map (\<lambda>task. if projectId task = Some deletedProjectId
                                    then task\<lparr>projectId := Some (projId defaultProject),
                                           updatedAt := now env\<rparr>
                                    else task) ts) st1))"

section \<open>useProjects.deleteProject (hooks/useProjects.ts)\<close>

text \<open>
  The hook's \<^verbatim>\<open>deleteProject\<close> on the two stored collections (its React state, a
  copy of the project list for display, is left out): the tasks are reassigned first,
  and the guard against deleting a default project is that of
  \<^verbatim>\<open>ProjectStorageService.deleteProject\<close>, which runs second.
\<close>

definition useProjects_deleteProject :: "Env \<Rightarrow> string \<Rightarrow> Store \<Rightarrow> bool \<times> Store" where
  "useProjects_deleteProject env pid st =
     (let (success, st1) = handleProjectDeletion env pid st
      in if \<not> success then (False, st1)
         else (let (projectDeleted, st2) = ProjectStorage_deleteProject env pid st1
               in if projectDeleted then (True, st2) else (False, st2)))"

section \<open>Statistics\<close>

record TaskStats =
  s_total :: nat
  s_completed :: nat
  s_pending :: nat
  s_overdue :: nat
  s_highPriority :: nat

text \<open>
  The five counts of \<^verbatim>\<open>getTaskStats\<close> and \<^verbatim>\<open>getTaskStatsByProject\<close>, over the
  tasks already read. \<^verbatim>\<open>task.dueDate && task.dueDate < now\<close>: a \<^verbatim>\<open>Date\<close> object is
  truthy whatever its time, so the conjunct only asks for a due date.
\<close>

definition taskStats :: "Date \<Rightarrow> Task list \<Rightarrow> TaskStats" where
  "taskStats nw ts =
     \<lparr>s_total = length ts,
      s_completed = length (filter (\<lambda>task. completed task) ts),
      s_pending = length (filter (\<lambda>task. \<not> completed task) ts),
      s_overdue = length (filter (\<lambda>task.
          (case dueDate task of None \<Rightarrow> False | Some d \<Rightarrow> d < nw) \<and> \<not> completed task) ts),
      s_highPriority = length (filter (\<lambda>task. priority task = HIGH \<and> \<not> completed task) ts)\<rparr>"

definition getTaskStats :: "Env \<Rightarrow> Store \<Rightarrow> TaskStats" where
  "getTaskStats env st = taskStats (now env) (getTasks st)"

definition getTasksByProject :: "string \<Rightarrow> Store \<Rightarrow> Task list" where
  "getTasksByProject pid st = filter (\<lambda>task. projectId task = Some pid) (getTasks st)"

definition getTaskStatsByProject :: "Env \<Rightarrow> string \<Rightarrow> Store \<Rightarrow> TaskStats" where
  "getTaskStatsByProject env pid st = taskStats (now env) (getTasksByProject pid st)"

section \<open>Calendar days\<close>

text \<open>
  The hook \<^verbatim>\<open>useTasks\<close> compares calendar days in local time. Local time is UTC
  shifted by a fixed offset \<open>tz\<close> in milliseconds, every local day lasting 24 hours
  (no daylight-saving change among the days compared), and every time value stays in
  the range of \<^verbatim>\<open>Date\<close>. \<open>dayNumber\<close> counts the local calendar days since
  1 January 1970, a Thursday; \<open>addDays\<close> is \<^verbatim>\<open>setDate(getDate() + k)\<close>; \<open>getDay\<close> is
  the weekday, Sunday being 0.
\<close>

definition msPerDay :: int where
  "msPerDay = 86400000"

definition dayNumber :: "int \<Rightarrow> Date \<Rightarrow> int" where
  "dayNumber tz d = (d + tz) div msPerDay"

definition addDays :: "int \<Rightarrow> Date \<Rightarrow> Date" where
  "addDays k d = d + k * msPerDay"

definition getDay :: "int \<Rightarrow> Date \<Rightarrow> int" where
  "getDay tz d = (dayNumber tz d + 4) mod 7"

text \<open>
  The calendar of ECMAScript (the proleptic Gregorian one). \<open>dayFromYear y\<close> is the
  day number of 1 January of the year \<open>y\<close>, \<open>yearFromDay\<close> the year a day falls in:
  the year of the average length of 365.2425 days, corrected by one where that
  estimate misses. \<open>monthFromDay\<close> and \<open>monthStart\<close> are the table of the months, on
  the day within the year, counted from 0; months count from 0 as well.
\<close>

definition inLeapYear :: "int \<Rightarrow> bool" where
  "inLeapYear y = (y mod 400 = 0 \<or> (y mod 4 = 0 \<and> y mod 100 \<noteq> 0))"

definition dayFromYear :: "int \<Rightarrow> int" where
  "dayFromYear y =
     365 * (y - 1970) + (y - 1969) div 4 - (y - 1901) div 100 + (y - 1601) div 400"

definition yearFromDay :: "int \<Rightarrow> int" where
  "yearFromDay day =
     (let y = 1970 + (400 * day) div 146097
      in if day < dayFromYear y then y - 1
         else if dayFromYear (y + 1) \<le> day then y + 1
         else y)"

definition monthFromDay :: "bool \<Rightarrow> int \<Rightarrow> int" where
  "monthFromDay leap d =
     (let l = (if leap then 1 else 0)
      in if d < 31 then 0
         else if d < 59 + l then 1
         else if d < 90 + l then 2
         else if d < 120 + l then 3
         else if d < 151 + l then 4
         else if d < 181 + l then 5
         else if d < 212 + l then 6
         else if d < 243 + l then 7
         else if d < 273 + l then 8
         else if d < 304 + l then 9
         else if d < 334 + l then 10
         else 11)"

definition monthStart :: "bool \<Rightarrow> int \<Rightarrow> int" where
  "monthStart leap m =
     (let l = (if leap then 1 else 0)
      in if m = 0 then 0
         else if m = 1 then 31
         else if m = 2 then 59 + l
         else if m = 3 then 90 + l
         else if m = 4 then 120 + l
         else if m = 5 then 151 + l
         else if m = 6 then 181 + l
         else if m = 7 then 212 + l
         else if m = 8 then 243 + l
         else if m = 9 then 273 + l
         else if m = 10 then 304 + l
         else 334 + l)"

text \<open>The local date fields of a \<^verbatim>\<open>Date\<close>.\<close>

definition getFullYear :: "int \<Rightarrow> Date \<Rightarrow> int" where
  "getFullYear tz d = yearFromDay (dayNumber tz d)"

definition dayWithinYear :: "int \<Rightarrow> Date \<Rightarrow> int" where
  "dayWithinYear tz d = dayNumber tz d - dayFromYear (getFullYear tz d)"

definition getMonth :: "int \<Rightarrow> Date \<Rightarrow> int" where
  "getMonth tz d = monthFromDay (inLeapYear (getFullYear tz d)) (dayWithinYear tz d)"

definition getDate :: "int \<Rightarrow> Date \<Rightarrow> int" where
  "getDate tz d =
     dayWithinYear tz d - monthStart (inLeapYear (getFullYear tz d)) (getMonth tz d) + 1"

text \<open>
  The constructor \<^verbatim>\<open>new Date(year, month, date)\<close>, for a month from 0 to 11: the
  local midnight that starts the day \<open>date\<close> of the month. A year from 0 to 99 stands
  for the year 1900 later: the constructor reads it as a two-digit year.
\<close>

definition newDate :: "int \<Rightarrow> int \<Rightarrow> int \<Rightarrow> int \<Rightarrow> Date" where
  "newDate tz y m dt =
     (let yr = (if 0 \<le> y \<and> y \<le> 99 then 1900 + y else y)
      in (dayFromYear yr + monthStart (inLeapYear yr) m + dt - 1) * msPerDay - tz)"

text \<open>
  \<open>dateOnly\<close> is the local midnight that starts the day of \<open>d\<close>. Outside the years
  0 to 99 it is \<^verbatim>\<open>new Date(d.getFullYear(), d.getMonth(), d.getDate())\<close> (lemma
  \<open>newDate_fields\<close> below). The hook computes \<^verbatim>\<open>today\<close> so from the clock, and the
  clock is taken to read a year after 99: \<^verbatim>\<open>today\<close> is \<open>dateOnly\<close> of now. A due
  date is data and may lie in any year.
\<close>

definition dateOnly :: "int \<Rightarrow> Date \<Rightarrow> Date" where
  "dateOnly tz d = dayNumber tz d * msPerDay - tz"

section \<open>useTasks: statistics, due-date filter and sorting (hooks/useTasks.ts)\<close>

text \<open>
  The \<^verbatim>\<open>stats\<close> memo of the hook, over the hook's task list. Its overdue count
  compares the due date with \<^verbatim>\<open>today\<close>, the midnight that starts the current day.
\<close>

definition useTasks_stats :: "int \<Rightarrow> Date \<Rightarrow> Task list \<Rightarrow> TaskStats" where
  "useTasks_stats tz nw ts =
     (let today = dateOnly tz nw
      in \<lparr>s_total = length ts,
          s_completed = length (filter (\<lambda>task. completed task) ts),
          s_pending = length (filter (\<lambda>task. \<not> completed task) ts),
          s_overdue = length (filter (\<lambda>task.
              (case dueDate task of None \<Rightarrow> False | Some d \<Rightarrow> d < today) \<and> \<not> completed task) ts),
          s_highPriority =
            length (filter (\<lambda>task. priority task = HIGH \<and> \<not> completed task) ts)\<rparr>)"

datatype DueDateFilter = ALL_DUE | TODAY | TOMORROW | THIS_WEEK | NEXT_WEEK | OVERDUE | NO_DUE_DATE

text \<open>
  The callback of the due-date step of \<^verbatim>\<open>filteredAndSortedTasks\<close>: a task without
  a due date is decided before the \<^verbatim>\<open>switch\<close>. The step runs this callback for
  every bucket but \<open>ALL_DUE\<close> (the source's \<^verbatim>\<open>ALL\<close>), for which the \<^verbatim>\<open>default\<close>
  branch stands here. \<^verbatim>\<open>dueDateOnly\<close> is built from the date fields of the due date.
\<close>

definition dueDateMatches :: "int \<Rightarrow> Date \<Rightarrow> DueDateFilter \<Rightarrow> Task \<Rightarrow> bool" where
  "dueDateMatches tz nw f task =
     (let today = dateOnly tz nw;
          tomorrow = addDays 1 today;
          thisWeekEnd = addDays (7 - getDay tz today) today;
          nextWeekEnd = addDays 7 thisWeekEnd
      in case dueDate task of
           None \<Rightarrow> f = NO_DUE_DATE
         | Some d \<Rightarrow>
             (let dueDateOnly = newDate tz (getFullYear tz d) (getMonth tz d) (getDate tz d)
              in case f of
                   TODAY \<Rightarrow> dueDateOnly = today
                 | TOMORROW \<Rightarrow> dueDateOnly = tomorrow
                 | THIS_WEEK \<Rightarrow> dueDateOnly \<ge> today \<and> dueDateOnly \<le> thisWeekEnd
                 | NEXT_WEEK \<Rightarrow> dueDateOnly > thisWeekEnd \<and> dueDateOnly \<le> nextWeekEnd
                 | OVERDUE \<Rightarrow> dueDateOnly < today \<and> \<not> completed task
                 | NO_DUE_DATE \<Rightarrow> False
                 | ALL_DUE \<Rightarrow> True))"

text \<open>
  \<^verbatim>\<open>if (filter.dueDate && filter.dueDate !== DueDateFilter.ALL)\<close>: an absent
  bucket and \<open>ALL_DUE\<close> leave the list as it is.
\<close>

definition applyDueDateFilter :: "int \<Rightarrow> Date \<Rightarrow> DueDateFilter option \<Rightarrow> Task list \<Rightarrow> Task list" where
  "applyDueDateFilter tz nw f ts =
     (case f of
        None \<Rightarrow> ts
      | Some b \<Rightarrow> if b \<noteq> ALL_DUE then filter (dueDateMatches tz nw b) ts else ts)"

datatype SortBy = CREATED_DATE | UPDATED_DATE | DUE_DATE | TITLE | PRIORITY | STATUS

datatype SortDirection = ASC | DESC

record TaskSort =
  sortBy :: SortBy
  direction :: SortDirection

text \<open>
  The comparator's \<^verbatim>\<open>aValue\<close> and \<^verbatim>\<open>bValue\<close> are a finite number, \<^verbatim>\<open>Infinity\<close>
  or a string. \<open>lessValue\<close> is JavaScript's \<^verbatim>\<open><\<close> on them: numeric on numbers,
  lexicographic by character code on strings. Both values of one comparison come from
  the same sort key, so a string never meets a number; that case is \<open>False\<close> here.
\<close>

datatype SortValue = NumV int | InfV | StrV string

fun lessValue :: "SortValue \<Rightarrow> SortValue \<Rightarrow> bool" where
  "lessValue (NumV a) (NumV b) = (a < b)"
| "lessValue (NumV a) InfV = True"
| "lessValue (StrV a) (StrV b) = (a < b)"
| "lessValue _ _ = False"

text \<open>
  \<^verbatim>\<open>toLowerCase\<close>. A string is a list of bytes here, and the letters A to Z are
  lowered; \<^verbatim>\<open>String.prototype.toLowerCase\<close> lowers every other cased letter as
  well, so the model is exact on titles in ASCII. No proof below looks into which
  letters are lowered.
\<close>

definition toLowerCase :: "string \<Rightarrow> string" where
  "toLowerCase s =
     map (\<lambda>c. if CHR ''A'' \<le> c \<and> c \<le> CHR ''Z'' then char_of (of_char c + (32::nat)) else c) s"

fun priorityOrder :: "TaskPriority \<Rightarrow> int" where
  "priorityOrder HIGH = 3"
| "priorityOrder MEDIUM = 2"
| "priorityOrder LOW = 1"

fun statusOrder :: "TaskStatus \<Rightarrow> int" where
  "statusOrder TODO = 1"
| "statusOrder IN_PROGRESS = 2"
| "statusOrder COMPLETED = 3"

text \<open>
  The \<^verbatim>\<open>switch (sort.sortBy)\<close> of the comparator. For the due date,
  \<^verbatim>\<open>a.dueDate?.getTime() || Infinity\<close> is \<^verbatim>\<open>Infinity\<close> when the left operand is
  falsy: \<^verbatim>\<open>undefined\<close>, and also the number 0.
\<close>

fun sortValue :: "SortBy \<Rightarrow> Task \<Rightarrow> SortValue" where
  "sortValue TITLE t = StrV (toLowerCase (title t))"
| "sortValue CREATED_DATE t = NumV (createdAt t)"
| "sortValue UPDATED_DATE t = NumV (updatedAt t)"
| "sortValue DUE_DATE t =
     (case dueDate t of
        None \<Rightarrow> InfV
      | Some d \<Rightarrow> if d \<noteq> 0 then NumV d else InfV)"
| "sortValue PRIORITY t = NumV (priorityOrder (priority t))"
| "sortValue STATUS t = NumV (statusOrder (status t))"

definition compareTasks :: "TaskSort \<Rightarrow> Task \<Rightarrow> Task \<Rightarrow> int" where
  "compareTasks srt a b =
     (let aValue = sortValue (sortBy srt) a;
          bValue = sortValue (sortBy srt) b
      in if lessValue aValue bValue then (if direction srt = ASC then - 1 else 1)
         else if lessValue bValue aValue then (if direction srt = ASC then 1 else - 1)
         else 0)"

text \<open>
  \<^verbatim>\<open>Array.prototype.sort\<close> with a comparator, which ECMAScript requires to be
  stable: an insertion sort that puts an element before the first element it does not
  compare greater than, starting from the end of the array. With the comparator of
  the hook, a sorted and stable result is unique (\<open>sortTasks_unique\<close> below), so the
  choice of the algorithm does not matter.
\<close>

fun insertSorted :: "('a \<Rightarrow> 'a \<Rightarrow> int) \<Rightarrow> 'a \<Rightarrow> 'a list \<Rightarrow> 'a list" where
  "insertSorted cmp x [] = [x]"
| "insertSorted cmp x (y # ys) =
     (if cmp x y \<le> 0 then x # y # ys else y # insertSorted cmp x ys)"

definition arraySort :: "('a \<Rightarrow> 'a \<Rightarrow> int) \<Rightarrow> 'a list \<Rightarrow> 'a list" where
  "arraySort cmp xs = foldr (insertSorted cmp) xs []"

definition sortTasks :: "TaskSort \<Rightarrow> Task list \<Rightarrow> Task list" where
  "sortTasks srt ts = arraySort (compareTasks srt) ts"

section \<open>Definitions for the proofs\<close>

text \<open>
  None of what follows is part of the program: closed forms of what the operations
  compute, the predicates the theorems are stated with, and example values.
\<close>

subsection \<open>Closed forms\<close>

text \<open>
  The project list as \<open>getProjects\<close> returns it, and the store it leaves: an empty
  list is replaced by a fresh default project.
\<close>

definition newDefaultProject :: "Env \<Rightarrow> Project" where
  "newDefaultProject env =
     \<lparr>projId = generatedProjectId env, name = ''Personal'',
      projDescription = Some ''Your personal tasks and reminders'',
      color = BLUE, isDefault = True,
      projCreatedAt = now env, projUpdatedAt = now env\<rparr>"

definition existingProjects :: "Env \<Rightarrow> Store \<Rightarrow> Project list" where
  "existingProjects env st = (if projects st = [] then [newDefaultProject env] else projects st)"

definition ensureProjects :: "Env \<Rightarrow> Store \<Rightarrow> Store" where
  "ensureProjects env st = st\<lparr>projects := existingProjects env st\<rparr>"

text \<open>The task \<open>addTask\<close> builds, given the project id it settles on.\<close>

definition newTask :: "Env \<Rightarrow> CreateTaskInput \<Rightarrow> string option \<Rightarrow> Task" where
  "newTask env input pid =
     \<lparr>taskId = generatedTaskId env, title = in_title input,
      description = in_description input, completed = False, status = TODO,
      priority = (case in_priority input of None \<Rightarrow> MEDIUM | Some p \<Rightarrow> p),
      projectId = pid, dueDate = in_dueDate input,
      createdAt = now env, updatedAt = now env,
      tags = Some (case in_tags input of None \<Rightarrow> [] | Some ts \<Rightarrow> ts)\<rparr>"

definition resolvedProjectId :: "Env \<Rightarrow> string option \<Rightarrow> Store \<Rightarrow> string option" where
  "resolvedProjectId env pid st =
     (if truthy pid \<and> the pid \<in> projId ` set (existingProjects env st) then pid
      else map_option projId (find isDefault (existingProjects env st)))"

text \<open>
  The updates after the project check of \<open>updateTask\<close>, the store after that check,
  and the task that is stored at index \<open>i\<close>.
\<close>

definition validatedUpdates :: "Env \<Rightarrow> TaskUpdates \<Rightarrow> Store \<Rightarrow> TaskUpdates" where
  "validatedUpdates env u st =
     (case u_projectId u of
        Some (Some pid) \<Rightarrow>
          if pid \<noteq> [] \<and> pid \<notin> projId ` set (existingProjects env st)
          then u\<lparr>u_projectId := Some (map_option projId (find isDefault (existingProjects env st)))\<rparr>
          else u
      | _ \<Rightarrow> u)"

definition afterProjectCheck :: "Env \<Rightarrow> TaskUpdates \<Rightarrow> Store \<Rightarrow> Store" where
  "afterProjectCheck env u st =
     (case u_projectId u of
        Some (Some pid) \<Rightarrow> if pid \<noteq> [] then ensureProjects env st else st
      | _ \<Rightarrow> st)"

definition updatedTask :: "Env \<Rightarrow> TaskUpdates \<Rightarrow> Store \<Rightarrow> nat \<Rightarrow> Task" where
  "updatedTask env u st i = (spread (tasks st ! i) (validatedUpdates env u st))\<lparr>updatedAt := now env\<rparr>"

text \<open>A task after \<open>toggleTask\<close>, and after \<open>handleProjectDeletion\<close>.\<close>

definition toggled :: "Env \<Rightarrow> Task \<Rightarrow> Task" where
  "toggled env t =
     t\<lparr>completed := \<not> completed t,
       status := (if \<not> completed t then COMPLETED else TODO),
       updatedAt := now env\<rparr>"

definition reassigned :: "Env \<Rightarrow> string \<Rightarrow> Project \<Rightarrow> Task \<Rightarrow> Task" where
  "reassigned env pid d task =
     (if projectId task = Some pid
      then task\<lparr>projectId := Some (projId d), updatedAt := now env\<rparr> else task)"

subsection \<open>Predicates\<close>

text \<open>
  The invariant of the data model: a task is completed exactly if its status says so.
  Updates are reconciled when they set neither of the two fields, or both in agreement.
\<close>

definition consistent :: "Task \<Rightarrow> bool" where
  "consistent t = (completed t \<longleftrightarrow> status t = COMPLETED)"

definition reconciled :: "TaskUpdates \<Rightarrow> bool" where
  "reconciled u =
     (case (u_completed u, u_status u) of
        (None, None) \<Rightarrow> True
      | (Some c, Some s) \<Rightarrow> (c \<longleftrightarrow> s = COMPLETED)
      | _ \<Rightarrow> False)"

text \<open>Every task that names a project names one of the list.\<close>

definition referencesExist :: "Task list \<Rightarrow> Project list \<Rightarrow> bool" where
  "referencesExist ts ps =
     list_all (\<lambda>task. case projectId task of None \<Rightarrow> True | Some q \<Rightarrow> q \<in> projId ` set ps) ts"

text \<open>Whether a comparator value is a string.\<close>

fun isString :: "SortValue \<Rightarrow> bool" where
  "isString (StrV s) = True"
| "isString _ = False"

subsection \<open>Example values\<close>

text \<open>
  A store with the default project \<open>p1\<close> and one task in it, an environment whose
  clock reads 5, and an input that names no project.
\<close>

definition exampleTask :: Task where
  "exampleTask =
     \<lparr>taskId = ''t1'', title = ''A'', description = None, completed = False, status = TODO,
      priority = LOW, projectId = Some ''p1'', dueDate = None, createdAt = 0, updatedAt = 0,
      tags = Some []\<rparr>"

definition exampleProject :: Project where
  "exampleProject =
     \<lparr>projId = ''p1'', name = ''Personal'', projDescription = None, color = BLUE,
      isDefault = True, projCreatedAt = 0, projUpdatedAt = 0\<rparr>"

definition exampleStore :: Store where
  "exampleStore = \<lparr>tasks = [exampleTask], projects = [exampleProject]\<rparr>"

definition exampleEnv :: Env where
  "exampleEnv = \<lparr>now = 5, generatedTaskId = ''t9'', generatedProjectId = ''p9''\<rparr>"

definition exampleInput :: CreateTaskInput where
  "exampleInput =
     \<lparr>in_title = ''B'', in_description = None, in_priority = None, in_projectId = None,
      in_dueDate = None, in_tags = None\<rparr>"

text \<open>
  Five tasks for the statistics at time 5: three completed, two uncompleted of high
  priority, one of them overdue.
\<close>

definition exampleStatsTasks :: "Task list" where
  "exampleStatsTasks =
     [exampleTask\<lparr>completed := True, status := COMPLETED\<rparr>,
      exampleTask\<lparr>taskId := ''t2'', completed := True, status := COMPLETED, priority := HIGH\<rparr>,
      exampleTask\<lparr>taskId := ''t3'', completed := True, status := COMPLETED, dueDate := Some 1\<rparr>,
      exampleTask\<lparr>taskId := ''t4'', priority := HIGH, dueDate := Some 1\<rparr>,
      exampleTask\<lparr>taskId := ''t5'', priority := HIGH, dueDate := Some 9\<rparr>]"

text \<open>
  Three tasks for the due-date filter on 2 January 1970 (UTC): A was due the day
  before, B is due the day after, C has no due date and is completed.
\<close>

definition exampleDueTasks :: "Task list" where
  "exampleDueTasks =
     [exampleTask\<lparr>dueDate := Some 1000\<rparr>,
      exampleTask\<lparr>taskId := ''t2'', title := ''B'', dueDate := Some 172800005\<rparr>,
      exampleTask\<lparr>taskId := ''t3'', title := ''C'', completed := True, status := COMPLETED\<rparr>]"


text \<open>The two sort specifications of the scenarios.\<close>

definition byPriorityDesc :: TaskSort where
  "byPriorityDesc = \<lparr>sortBy = PRIORITY, direction = DESC\<rparr>"

definition byDueDateAsc :: TaskSort where
  "byDueDateAsc = \<lparr>sortBy = DUE_DATE, direction = ASC\<rparr>"

section \<open>The comparator and the sort\<close>

text \<open>
  \<open>lessValue\<close> is a strict order, and a strict linear order on the values of one
  sort key, which are all strings or all numbers.
\<close>

lemma lessValue_irrefl: "\<not> lessValue a a"
  by (cases a) auto

lemma lessValue_asym: "lessValue a b \<Longrightarrow> \<not> lessValue b a"
  by (cases a; cases b) auto

lemma lessValue_trans: "lessValue a b \<Longrightarrow> lessValue b c \<Longrightarrow> lessValue a c"
  by (cases a; cases b; cases c) auto

lemma sortValue_kind: "isString (sortValue sb a) = isString (sortValue sb b)"
  by (cases sb) (auto split: option.splits)

lemma lessValue_total:
  "isString a = isString b \<Longrightarrow> \<not> lessValue a b \<Longrightarrow> \<not> lessValue b a \<Longrightarrow> a = b"
  by (cases a; cases b) auto

lemma sortValue_tie:
  "\<not> lessValue (sortValue sb a) (sortValue sb b) \<Longrightarrow>
   \<not> lessValue (sortValue sb b) (sortValue sb a) \<Longrightarrow> sortValue sb a = sortValue sb b"
  by (rule lessValue_total [OF sortValue_kind])

lemma compareTasks_zero_iff: "compareTasks s a b = 0 \<longleftrightarrow> sortValue (sortBy s) a = sortValue (sortBy s) b"
proof
  assume "compareTasks s a b = 0"
  then have "\<not> lessValue (sortValue (sortBy s) a) (sortValue (sortBy s) b)"
    and "\<not> lessValue (sortValue (sortBy s) b) (sortValue (sortBy s) a)"
    by (simp_all add: compareTasks_def Let_def split: if_splits)
  then show "sortValue (sortBy s) a = sortValue (sortBy s) b"
    by (rule sortValue_tie)
next
  assume "sortValue (sortBy s) a = sortValue (sortBy s) b"
  then show "compareTasks s a b = 0"
    by (simp add: compareTasks_def Let_def lessValue_irrefl)
qed

lemma compareTasks_flip: "compareTasks (s\<lparr>direction := DESC\<rparr>) a b = - compareTasks (s\<lparr>direction := ASC\<rparr>) a b"
  by (simp add: compareTasks_def Let_def)

lemma compareTasks_antisym: "compareTasks s b a = - compareTasks s a b"
  by (auto simp: compareTasks_def Let_def dest: lessValue_asym)

text \<open>
  Inserting an element does not disturb the elements a predicate selects, as long as
  the insertion passes over none of them that the new element should stay in front of.
\<close>

lemma filter_insertSorted:
  assumes "\<And>y. P x \<Longrightarrow> 0 < cmp x y \<Longrightarrow> \<not> P y"
  shows "filter P (insertSorted cmp x ys) = (if P x then x # filter P ys else filter P ys)"
  using assms by (induction ys) auto

lemma arraySort_Cons: "arraySort cmp (x # xs) = insertSorted cmp x (arraySort cmp xs)"
  by (simp add: arraySort_def)

lemma arraySort_Nil: "arraySort cmp [] = []"
  by (simp add: arraySort_def)

lemma set_insertSorted: "set (insertSorted cmp x ys) = insert x (set ys)"
  by (induction ys) auto

lemma set_arraySort: "set (arraySort cmp xs) = set xs"
  by (induction xs) (simp_all add: arraySort_Nil arraySort_Cons set_insertSorted)

lemma length_insertSorted: "length (insertSorted cmp x ys) = Suc (length ys)"
  by (induction ys) auto

lemma length_arraySort: "length (arraySort cmp xs) = length xs"
  by (induction xs) (simp_all add: arraySort_Nil arraySort_Cons length_insertSorted)

lemma sortTasks_stable_key:
  "filter (\<lambda>t. sortValue (sortBy s) t = k) (sortTasks s ts) = filter (\<lambda>t. sortValue (sortBy s) t = k) ts"
proof (induction ts)
  case Nil
  show ?case by (simp add: sortTasks_def arraySort_Nil)
next
  case (Cons x xs)
  have "\<And>y. sortValue (sortBy s) x = k \<Longrightarrow> 0 < compareTasks s x y \<Longrightarrow> sortValue (sortBy s) y \<noteq> k"
  proof
    fix y
    assume "sortValue (sortBy s) x = k" "0 < compareTasks s x y" "sortValue (sortBy s) y = k"
    then have "compareTasks s x y = 0" "0 < compareTasks s x y"
      by (simp_all add: compareTasks_zero_iff)
    then show False by simp
  qed
  then have "filter (\<lambda>t. sortValue (sortBy s) t = k) (insertSorted (compareTasks s) x (arraySort (compareTasks s) xs))
     = (if sortValue (sortBy s) x = k then x # filter (\<lambda>t. sortValue (sortBy s) t = k) (arraySort (compareTasks s) xs)
        else filter (\<lambda>t. sortValue (sortBy s) t = k) (arraySort (compareTasks s) xs))"
    by (rule filter_insertSorted)
  with Cons show ?case
    by (simp add: sortTasks_def arraySort_Cons)
qed

lemma sortTasks_stable:
  "filter (\<lambda>t. compareTasks s x t = 0) (sortTasks s ts) = filter (\<lambda>t. compareTasks s x t = 0) ts"
proof -
  have "(\<lambda>t. compareTasks s x t = 0) = (\<lambda>t. sortValue (sortBy s) t = sortValue (sortBy s) x)"
    by (auto simp: compareTasks_zero_iff)
  then show ?thesis
    by (simp add: sortTasks_stable_key)
qed

text \<open>The comparator is a total preorder, so the insertion sort returns a sorted list.\<close>

lemma sortValue_linear:
  "lessValue (sortValue sb a) (sortValue sb b) \<or> lessValue (sortValue sb b) (sortValue sb a)
   \<or> sortValue sb a = sortValue sb b"
  using sortValue_tie by blast

lemma sortValue_neg_trans:
  assumes "\<not> lessValue (sortValue sb y) (sortValue sb x)"
    and "\<not> lessValue (sortValue sb z) (sortValue sb y)"
  shows "\<not> lessValue (sortValue sb z) (sortValue sb x)"
proof
  assume zx: "lessValue (sortValue sb z) (sortValue sb x)"
  from assms(1) sortValue_linear [of sb x y]
  consider "lessValue (sortValue sb x) (sortValue sb y)" | "sortValue sb x = sortValue sb y"
    by blast
  then have "lessValue (sortValue sb z) (sortValue sb y)"
  proof cases
    case 1
    with zx show ?thesis by (rule lessValue_trans)
  next
    case 2
    with zx show ?thesis by simp
  qed
  with assms(2) show False by simp
qed

lemma compareTasks_le_iff:
  "compareTasks s x y \<le> 0 \<longleftrightarrow>
     (if direction s = ASC then \<not> lessValue (sortValue (sortBy s) y) (sortValue (sortBy s) x)
      else \<not> lessValue (sortValue (sortBy s) x) (sortValue (sortBy s) y))"
  by (auto simp: compareTasks_def Let_def dest: lessValue_asym)

lemma compareTasks_le_trans:
  assumes "compareTasks s a b \<le> 0" and "compareTasks s b c \<le> 0"
  shows "compareTasks s a c \<le> 0"
proof (cases "direction s = ASC")
  case True
  with assms show ?thesis
    by (simp add: compareTasks_le_iff) (rule sortValue_neg_trans)
next
  case False
  with assms show ?thesis
    by (simp add: compareTasks_le_iff) (rule sortValue_neg_trans)
qed

lemma sorted_insertSorted:
  assumes tr: "\<And>a b c. cmp a b \<le> 0 \<Longrightarrow> cmp b c \<le> 0 \<Longrightarrow> cmp a c \<le> 0"
    and tot: "\<And>a b. 0 < cmp a b \<Longrightarrow> cmp b a \<le> 0"
    and "sorted_wrt (\<lambda>a b. cmp a b \<le> 0) ys"
  shows "sorted_wrt (\<lambda>a b. cmp a b \<le> 0) (insertSorted cmp x ys)"
  using assms(3)
proof (induction ys)
  case Nil
  show ?case by simp
next
  case (Cons y ys)
  show ?case
  proof (cases "cmp x y \<le> 0")
    case True
    have "cmp x z \<le> 0" if "z \<in> set ys" for z
    proof -
      from that Cons.prems have "cmp y z \<le> 0" by simp
      with True show ?thesis by (rule tr)
    qed
    with True Cons.prems show ?thesis by simp
  next
    case False
    then have "cmp y x \<le> 0" using tot [of x y] by simp
    with False Cons show ?thesis by (simp add: set_insertSorted)
  qed
qed

lemma sorted_sortTasks: "sorted_wrt (\<lambda>a b. compareTasks s a b \<le> 0) (sortTasks s ts)"
proof (induction ts)
  case Nil
  show ?case by (simp add: sortTasks_def arraySort_Nil)
next
  case (Cons x xs)
  have "sorted_wrt (\<lambda>a b. compareTasks s a b \<le> 0)
          (insertSorted (compareTasks s) x (arraySort (compareTasks s) xs))"
  proof (rule sorted_insertSorted)
    show "compareTasks s a c \<le> 0" if "compareTasks s a b \<le> 0" "compareTasks s b c \<le> 0" for a b c
      using that by (rule compareTasks_le_trans)
    show "compareTasks s b a \<le> 0" if "0 < compareTasks s a b" for a b
      using that compareTasks_antisym [of s b a] by simp
    show "sorted_wrt (\<lambda>a b. compareTasks s a b \<le> 0) (arraySort (compareTasks s) xs)"
      using Cons by (simp add: sortTasks_def)
  qed
  then show ?case by (simp add: sortTasks_def arraySort_Cons)
qed


text \<open>
  A list that is sorted by a total preorder, and in which the elements of every
  equivalence class stand in a given order, is unique. So the result of \<open>sortTasks\<close>
  is the only one a stable sort with this comparator can return, whatever its
  algorithm.
\<close>

lemma stable_sorted_unique:
  assumes tr: "\<And>a b c. cmp a b \<le> 0 \<Longrightarrow> cmp b c \<le> 0 \<Longrightarrow> cmp a c \<le> (0::int)"
    and anti: "\<And>a b. cmp b a = - cmp a b"
  shows "sorted_wrt (\<lambda>a b. cmp a b \<le> 0) ys \<Longrightarrow> sorted_wrt (\<lambda>a b. cmp a b \<le> 0) zs \<Longrightarrow>
    (\<And>x. filter (\<lambda>t. cmp x t = 0) ys = filter (\<lambda>t. cmp x t = 0) zs) \<Longrightarrow> ys = zs"
proof (induction ys arbitrary: zs)
  case Nil
  show ?case
  proof (cases zs)
    case Nil
    then show ?thesis by simp
  next
    case (Cons z zs')
    from anti [of z z] have "cmp z z = 0" by simp
    with Nil.prems(3) [of z] Cons show ?thesis by simp
  qed
next
  case (Cons y ys')
  have refl: "cmp a a = 0" for a using anti [of a a] by simp
  have le_head: "cmp a b \<le> 0" if "sorted_wrt (\<lambda>a b. cmp a b \<le> 0) (a # as)" "b \<in> set (a # as)" for a b as
    using that refl by auto
  have "y \<in> set (filter (\<lambda>t. cmp y t = 0) (y # ys'))" using refl by simp
  with Cons.prems(3) [of y] have "y \<in> set (filter (\<lambda>t. cmp y t = 0) zs)" by simp
  then have "y \<in> set zs" by simp
  then obtain z zs' where zs: "zs = z # zs'" by (cases zs) auto
  have mem_equiv: "\<exists>b \<in> set bs. cmp a b = 0"
    if "a \<in> set as" "filter (\<lambda>t. cmp a t = 0) as = filter (\<lambda>t. cmp a t = 0) bs" for a as bs
  proof -
    from that(1) refl have "a \<in> set (filter (\<lambda>t. cmp a t = 0) as)" by simp
    with that(2) show ?thesis by auto
  qed
  have yz: "cmp y z \<le> 0"
  proof -
    from mem_equiv [of z zs "y # ys'"] Cons.prems(3) [of z] zs
    obtain b where b: "b \<in> set (y # ys')" "cmp z b = 0" by auto
    from le_head [OF Cons.prems(1) b(1)] have "cmp y b \<le> 0" .
    moreover from b(2) anti [of z b] have "cmp b z \<le> 0" by simp
    ultimately show ?thesis by (rule tr)
  qed
  have zy: "cmp z y \<le> 0"
  proof -
    from mem_equiv [of y "y # ys'" zs] Cons.prems(3) [of y]
    obtain b where b: "b \<in> set zs" "cmp y b = 0" by auto
    from le_head [of z zs' b] Cons.prems(2) b(1) zs have "cmp z b \<le> 0" by simp
    moreover from b(2) anti [of y b] have "cmp b y \<le> 0" by simp
    ultimately show ?thesis by (rule tr)
  qed
  from yz zy anti [of y z] have eq: "cmp y z = 0" by simp
  from Cons.prems(3) [of y] zs
  have "filter (\<lambda>t. cmp y t = 0) (y # ys') = filter (\<lambda>t. cmp y t = 0) (z # zs')"
    by simp
  then have "y # filter (\<lambda>t. cmp y t = 0) ys' = z # filter (\<lambda>t. cmp y t = 0) zs'"
    by (simp only: filter.simps refl eq if_True simp_thms)
  then have head: "y = z"
    and tail_y: "filter (\<lambda>t. cmp y t = 0) ys' = filter (\<lambda>t. cmp y t = 0) zs'"
    by auto
  have "filter (\<lambda>t. cmp x t = 0) ys' = filter (\<lambda>t. cmp x t = 0) zs'" for x
  proof (cases "cmp x y = 0")
    case True
    have "cmp x t = 0 \<longleftrightarrow> cmp y t = 0" for t
    proof
      assume "cmp x t = 0"
      with True anti [of x y] anti [of x t]
      have 1: "cmp y x \<le> 0" and 2: "cmp x t \<le> 0" and 3: "cmp t x \<le> 0" and 4: "cmp x y \<le> 0"
        by simp_all
      from 1 2 have "cmp y t \<le> 0" by (rule tr)
      moreover from 3 4 have "cmp t y \<le> 0" by (rule tr)
      ultimately show "cmp y t = 0" using anti [of y t] by simp
    next
      assume "cmp y t = 0"
      with True anti [of x y] anti [of y t]
      have 1: "cmp x y \<le> 0" and 2: "cmp y t \<le> 0" and 3: "cmp t y \<le> 0" and 4: "cmp y x \<le> 0"
        by simp_all
      from 1 2 have "cmp x t \<le> 0" by (rule tr)
      moreover from 3 4 have "cmp t x \<le> 0" by (rule tr)
      ultimately show "cmp x t = 0" using anti [of x t] by simp
    qed
    with tail_y show ?thesis by simp
  next
    case False
    with Cons.prems(3) [of x] zs head show ?thesis by simp
  qed
  moreover from Cons.prems(1) have "sorted_wrt (\<lambda>a b. cmp a b \<le> 0) ys'" by simp
  moreover from Cons.prems(2) zs have "sorted_wrt (\<lambda>a b. cmp a b \<le> 0) zs'" by simp
  ultimately have "ys' = zs'" by (rule Cons.IH [rotated 2])
  with head zs show ?case by simp
qed

lemma sortTasks_unique:
  assumes "sorted_wrt (\<lambda>a b. compareTasks s a b \<le> 0) ys"
    and "\<And>x. filter (\<lambda>t. compareTasks s x t = 0) ys = filter (\<lambda>t. compareTasks s x t = 0) ts"
  shows "ys = sortTasks s ts"
proof (rule stable_sorted_unique [where cmp = "compareTasks s"])
  show "compareTasks s a c \<le> 0" if "compareTasks s a b \<le> 0" "compareTasks s b c \<le> 0" for a b c
    using that by (rule compareTasks_le_trans)
  show "compareTasks s b a = - compareTasks s a b" for a b
    by (rule compareTasks_antisym)
  show "sorted_wrt (\<lambda>a b. compareTasks s a b \<le> 0) ys" by fact
  show "sorted_wrt (\<lambda>a b. compareTasks s a b \<le> 0) (sortTasks s ts)" by (rule sorted_sortTasks)
  show "filter (\<lambda>t. compareTasks s x t = 0) ys = filter (\<lambda>t. compareTasks s x t = 0) (sortTasks s ts)" for x
    using assms(2) [of x] by (simp add: sortTasks_stable)
qed


text \<open>
  Claim C8. For every task list, sort key and direction the sort is stable: the tasks
  that compare equal to a given task (the comparator returns 0) come out in their
  input order. The comparator of the descending direction is the negation of the
  ascending one. Sorting tasks of priorities low, high, medium by priority,
  descending, gives the order high, medium, low.
\<close>

theorem sort_stable_and_direction:
  "filter (\<lambda>t. compareTasks s x t = 0) (sortTasks s ts) = filter (\<lambda>t. compareTasks s x t = 0) ts
   \<and> compareTasks (s\<lparr>direction := DESC\<rparr>) a b = - compareTasks (s\<lparr>direction := ASC\<rparr>) a b
   \<and> (priority l = LOW \<and> priority h = HIGH \<and> priority m = MEDIUM
        \<longrightarrow> sortTasks byPriorityDesc [l, h, m] = [h, m, l])"
proof (intro conjI impI)
  show "filter (\<lambda>t. compareTasks s x t = 0) (sortTasks s ts) = filter (\<lambda>t. compareTasks s x t = 0) ts"
    by (rule sortTasks_stable)
  show "compareTasks (s\<lparr>direction := DESC\<rparr>) a b = - compareTasks (s\<lparr>direction := ASC\<rparr>) a b"
    by (rule compareTasks_flip)
  assume "priority l = LOW \<and> priority h = HIGH \<and> priority m = MEDIUM"
  then show "sortTasks byPriorityDesc [l, h, m] = [h, m, l]"
    by (simp add: sortTasks_def arraySort_def compareTasks_def byPriorityDesc_def)
qed

theorem sort_stable_and_direction_witness:
  "priority exampleTask = LOW
   \<and> sortTasks byPriorityDesc
     [exampleTask, exampleTask\<lparr>priority := HIGH\<rparr>, exampleTask\<lparr>priority := MEDIUM\<rparr>]
     = [exampleTask\<lparr>priority := HIGH\<rparr>, exampleTask\<lparr>priority := MEDIUM\<rparr>, exampleTask]
   \<and> filter (\<lambda>t. compareTasks byPriorityDesc exampleTask t = 0)
       (sortTasks byPriorityDesc
          [exampleTask, exampleTask\<lparr>priority := HIGH\<rparr>, exampleTask\<lparr>taskId := ''t2''\<rparr>])
     = [exampleTask, exampleTask\<lparr>taskId := ''t2''\<rparr>]"
  using sort_stable_and_direction [of byPriorityDesc exampleTask
      "[exampleTask, exampleTask\<lparr>priority := HIGH\<rparr>, exampleTask\<lparr>taskId := ''t2''\<rparr>]"
      exampleTask exampleTask exampleTask "exampleTask\<lparr>priority := HIGH\<rparr>"
      "exampleTask\<lparr>priority := MEDIUM\<rparr>"]
  by (simp add: exampleTask_def compareTasks_def byPriorityDesc_def)

text \<open>
  Claim C9 says that in ascending order by due date every task without a due date
  comes after every task with one. The comparator computes
  \<^verbatim>\<open>a.dueDate?.getTime() || Infinity\<close>, so a due date at the epoch (time value 0)
  sorts as \<^verbatim>\<open>Infinity\<close> too: of a task without a due date followed by a task due at
  the epoch, the sort keeps the input order, and the task without a due date stays in
  front of a task that has one.
\<close>

theorem dueDate_epoch_not_before_undated:
  "dueDate (exampleTask\<lparr>taskId := ''t2'', dueDate := Some 0\<rparr>) = Some 0
   \<and> dueDate exampleTask = None
   \<and> sortTasks byDueDateAsc [exampleTask, exampleTask\<lparr>taskId := ''t2'', dueDate := Some 0\<rparr>]
       = [exampleTask, exampleTask\<lparr>taskId := ''t2'', dueDate := Some 0\<rparr>]"
  by (simp add: exampleTask_def sortTasks_def arraySort_def compareTasks_def byDueDateAsc_def)



section \<open>The task repository\<close>

subsection \<open>Closed forms of the operations\<close>

text \<open>
  Every read of the project list goes through \<open>getProjects\<close>, which stores a fresh
  default project when the list is empty: it returns \<open>existingProjects\<close> and leaves
  the store \<open>ensureProjects\<close>.
\<close>

lemma getProjects_eq: "getProjects env st = (existingProjects env st, ensureProjects env st)"
  by (simp add: getProjects_def createDefaultProject_def saveProjects_def Let_def
      existingProjects_def ensureProjects_def newDefaultProject_def)

lemma getDefaultProject_eq:
  "getDefaultProject env st = (find isDefault (existingProjects env st), ensureProjects env st)"
  by (simp add: getDefaultProject_def getProjects_eq)

lemma projectExists_eq:
  "projectExists env pid st = (pid \<in> projId ` set (existingProjects env st), ensureProjects env st)"
  by (simp add: projectExists_def getProjects_eq)

lemma existingProjects_ensure [simp]:
  "existingProjects env (ensureProjects env st) = existingProjects env st"
  by (simp add: existingProjects_def ensureProjects_def)

lemma ensureProjects_idem [simp]: "ensureProjects env (ensureProjects env st) = ensureProjects env st"
  by (simp add: ensureProjects_def existingProjects_def)

lemma tasks_ensureProjects [simp]: "tasks (ensureProjects env st) = tasks st"
  by (simp add: ensureProjects_def)

lemma projects_ensureProjects [simp]: "projects (ensureProjects env st) = existingProjects env st"
  by (simp add: ensureProjects_def)

lemma find_Some_mem: "find P xs = Some x \<Longrightarrow> x \<in> set xs \<and> P x"
  by (induction xs) (auto split: if_splits)

lemma findIndex_Some:
  "findIndex P xs = Some i \<Longrightarrow> i < length xs \<and> P (xs ! i) \<and> find P xs = Some (xs ! i)"
  by (induction xs arbitrary: i) (auto split: if_splits)

lemma findIndex_None: "findIndex P xs = None \<longleftrightarrow> find P xs = None"
  by (induction xs) auto

lemma find_findIndex: "find P xs = Some x \<Longrightarrow> \<exists>i. findIndex P xs = Some i \<and> xs ! i = x"
  by (induction xs) (auto split: if_splits)

lemma addTask_eq:
  "addTask env input st =
     (newTask env input (resolvedProjectId env (in_projectId input) st),
      (ensureProjects env st)\<lparr>tasks := tasks st @
         [newTask env input (resolvedProjectId env (in_projectId input) st)]\<rparr>)"
proof (cases "truthy (in_projectId input)")
  case True
  then show ?thesis
    by (simp add: addTask_def Let_def getDefaultProject_eq projectExists_eq getTasks_def
        saveTasks_def newTask_def resolvedProjectId_def)
next
  case False
  show ?thesis
  proof (cases "find isDefault (existingProjects env st)")
    case None
    with False show ?thesis
      by (simp add: addTask_def Let_def getDefaultProject_eq projectExists_eq getTasks_def
          saveTasks_def newTask_def resolvedProjectId_def)
  next
    case (Some d)
    then have "projId d \<in> projId ` set (existingProjects env st)"
      using find_Some_mem by fastforce
    with False Some show ?thesis
      by (simp add: addTask_def Let_def getDefaultProject_eq projectExists_eq getTasks_def
          saveTasks_def newTask_def resolvedProjectId_def)
  qed
qed

lemma updateTask_None:
  "findIndex (\<lambda>x. taskId x = tid) (tasks st) = None \<Longrightarrow> updateTask env tid u st = (None, st)"
  by (simp add: updateTask_def getTasks_def)

lemma updateTask_Some:
  assumes "findIndex (\<lambda>x. taskId x = tid) (tasks st) = Some i"
  shows "updateTask env tid u st =
     (Some (updatedTask env u st i),
      (afterProjectCheck env u st)\<lparr>tasks := (tasks st)[i := updatedTask env u st i]\<rparr>)"
proof (cases "u_projectId u")
  case None
  with assms show ?thesis
    by (simp add: updateTask_def Let_def getTasks_def saveTasks_def updatedTask_def
        validatedUpdates_def afterProjectCheck_def)
next
  case (Some v)
  show ?thesis
  proof (cases v)
    case None
    with Some assms show ?thesis
      by (simp add: updateTask_def Let_def getTasks_def saveTasks_def updatedTask_def
          validatedUpdates_def afterProjectCheck_def)
  next
    case (Some pid)
    with \<open>u_projectId u = Some v\<close> assms show ?thesis
      by (simp add: updateTask_def Let_def getTasks_def saveTasks_def updatedTask_def
          validatedUpdates_def afterProjectCheck_def projectExists_eq getDefaultProject_eq)
  qed
qed

lemma findIndex_update:
  "findIndex P xs = Some i \<Longrightarrow> P y \<Longrightarrow> findIndex P (xs[i := y]) = Some i"
proof (induction xs arbitrary: i)
  case Nil
  then show ?case by simp
next
  case (Cons x xs)
  then show ?case by (cases i) (auto split: if_splits)
qed

lemma list_all_update: "list_all P xs \<Longrightarrow> P y \<Longrightarrow> list_all P (xs[i := y])"
  by (induction xs arbitrary: i) (auto split: nat.splits)

lemma toggleTask_None:
  "findIndex (\<lambda>x. taskId x = tid) (tasks st) = None \<Longrightarrow> toggleTask env tid st = (None, st)"
  by (simp add: toggleTask_def getTasks_def findIndex_None)

lemma toggleTask_Some:
  assumes "findIndex (\<lambda>x. taskId x = tid) (tasks st) = Some i"
  shows "toggleTask env tid st =
     (Some (toggled env (tasks st ! i)), st\<lparr>tasks := (tasks st)[i := toggled env (tasks st ! i)]\<rparr>)"
proof -
  from assms have "find (\<lambda>x. taskId x = tid) (tasks st) = Some (tasks st ! i)"
    by (simp add: findIndex_Some)
  with assms show ?thesis
    by (simp add: toggleTask_def getTasks_def updateTask_Some updatedTask_def validatedUpdates_def
        afterProjectCheck_def noUpdates_def spread_def toggled_def)
qed

subsection \<open>The flag \<open>completed\<close> and the status\<close>

lemma consistent_newTask: "consistent (newTask env input pid)"
  by (simp add: consistent_def newTask_def)

lemma consistent_toggled: "consistent (toggled env t)"
  by (simp add: consistent_def toggled_def)

lemma consistent_updatedTask:
  assumes "reconciled u" and "consistent (tasks st ! i)"
  shows "consistent (updatedTask env u st i)"
proof -
  have same: "u_completed (validatedUpdates env u st) = u_completed u"
    "u_status (validatedUpdates env u st) = u_status u"
    by (simp_all add: validatedUpdates_def split: option.splits)
  from assms show ?thesis
    by (simp add: consistent_def updatedTask_def spread_def same reconciled_def
        split: option.splits)
qed

lemma consistent_addTask:
  "list_all consistent (tasks st) \<Longrightarrow> list_all consistent (tasks (snd (addTask env input st)))"
  by (simp add: addTask_eq consistent_newTask)

lemma consistent_deleteTask:
  "list_all consistent (tasks st) \<Longrightarrow> list_all consistent (tasks (snd (deleteTask tid st)))"
  by (simp add: deleteTask_def Let_def getTasks_def saveTasks_def list_all_iff)

lemma consistent_clearCompletedTasks:
  "list_all consistent (tasks st) \<Longrightarrow> list_all consistent (tasks (snd (clearCompletedTasks st)))"
  by (simp add: clearCompletedTasks_def Let_def getTasks_def saveTasks_def list_all_iff)

lemma consistent_toggleTask:
  assumes "list_all consistent (tasks st)"
  shows "list_all consistent (tasks (snd (toggleTask env tid st)))"
proof (cases "findIndex (\<lambda>x. taskId x = tid) (tasks st)")
  case None
  with assms show ?thesis by (simp add: toggleTask_None)
next
  case (Some i)
  with assms show ?thesis
    by (simp add: toggleTask_Some list_all_update consistent_toggled)
qed

lemma consistent_updateTask:
  assumes "list_all consistent (tasks st)" and "reconciled u"
  shows "list_all consistent (tasks (snd (updateTask env tid u st)))"
proof (cases "findIndex (\<lambda>x. taskId x = tid) (tasks st)")
  case None
  with assms show ?thesis by (simp add: updateTask_None)
next
  case (Some i)
  then have "i < length (tasks st)" by (rule findIndex_Some [THEN conjunct1])
  with assms(1) have "consistent (tasks st ! i)" by (simp add: list_all_length)
  with assms(2) have "consistent (updatedTask env u st i)" by (rule consistent_updatedTask)
  with assms(1) Some show ?thesis
    by (simp add: updateTask_Some list_all_update)
qed

text \<open>
  Claim C1, as amended. A task is consistent when \<open>completed\<close> holds exactly if its
  status is \<open>COMPLETED\<close>. If every stored task is consistent, every stored task is
  consistent after \<open>addTask\<close>, \<open>deleteTask\<close>, \<open>toggleTask\<close> and
  \<open>clearCompletedTasks\<close>, and after an \<open>updateTask\<close> whose updates set neither of
  the two fields or set both in agreement. \<open>updateTask\<close> merges the fields it is
  given and reconciles nothing.
\<close>

theorem mutations_keep_completed_status_consistent:
  "list_all consistent (tasks st) \<longrightarrow>
     list_all consistent (tasks (snd (addTask env input st)))
     \<and> list_all consistent (tasks (snd (deleteTask tid st)))
     \<and> list_all consistent (tasks (snd (toggleTask env tid st)))
     \<and> list_all consistent (tasks (snd (clearCompletedTasks st)))
     \<and> (reconciled u \<longrightarrow> list_all consistent (tasks (snd (updateTask env tid u st))))"
  by (simp add: consistent_addTask consistent_deleteTask consistent_toggleTask
      consistent_clearCompletedTasks consistent_updateTask)

theorem mutations_keep_completed_status_consistent_witness:
  "list_all consistent (tasks exampleStore)
   \<and> list_all consistent (tasks (snd (toggleTask exampleEnv ''t1'' exampleStore)))
   \<and> reconciled (noUpdates\<lparr>u_completed := Some True, u_status := Some COMPLETED\<rparr>)
   \<and> list_all consistent (tasks (snd (updateTask exampleEnv ''t1''
         (noUpdates\<lparr>u_completed := Some True, u_status := Some COMPLETED\<rparr>) exampleStore)))"
  using mutations_keep_completed_status_consistent [of exampleStore exampleEnv exampleInput "''t1''"
      "noUpdates\<lparr>u_completed := Some True, u_status := Some COMPLETED\<rparr>"]
  by (simp add: exampleStore_def exampleTask_def consistent_def reconciled_def noUpdates_def)

text \<open>
  An update that sets \<open>completed\<close> alone leaves the status \<open>TODO\<close> on a completed
  task.
\<close>

theorem updateTask_completed_without_status:
  "list_all consistent (tasks exampleStore)
   \<and> \<not> list_all consistent
        (tasks (snd (updateTask exampleEnv ''t1'' (noUpdates\<lparr>u_completed := Some True\<rparr>) exampleStore)))"
  by (simp add: exampleStore_def exampleTask_def exampleEnv_def consistent_def noUpdates_def
      updateTask_def getTasks_def saveTasks_def spread_def Let_def)

subsection \<open>Toggling twice\<close>

lemma find_update:
  assumes "findIndex P xs = Some i" and "P y"
  shows "find P (xs[i := y]) = Some y"
proof -
  from assms have "findIndex P (xs[i := y]) = Some i" by (rule findIndex_update)
  then have "find P (xs[i := y]) = Some (xs[i := y] ! i)" by (rule findIndex_Some [THEN conjunct2, THEN conjunct2])
  moreover from assms(1) have "i < length xs" by (rule findIndex_Some [THEN conjunct1])
  ultimately show ?thesis by simp
qed

lemma toggled_twice:
  "toggled env2 (toggled env1 t) =
     t\<lparr>status := (if completed t then COMPLETED else TODO), updatedAt := now env2\<rparr>"
  by (simp add: toggled_def)

lemma toggleTask_twice_eq:
  assumes "findIndex (\<lambda>x. taskId x = tid) (tasks st) = Some i"
  shows "toggleTask env2 tid (snd (toggleTask env1 tid st)) =
     (Some (toggled env2 (toggled env1 (tasks st ! i))),
      st\<lparr>tasks := (tasks st)[i := toggled env2 (toggled env1 (tasks st ! i))]\<rparr>)"
proof -
  let ?t1 = "toggled env1 (tasks st ! i)"
  let ?st1 = "st\<lparr>tasks := (tasks st)[i := ?t1]\<rparr>"
  from findIndex_Some [OF assms] have i: "i < length (tasks st)" and id: "taskId (tasks st ! i) = tid"
    by simp_all
  then have "taskId ?t1 = tid" by (simp add: toggled_def)
  with assms have "findIndex (\<lambda>x. taskId x = tid) (tasks ?st1) = Some i"
    by (simp add: findIndex_update)
  then have "toggleTask env2 tid ?st1 =
      (Some (toggled env2 (tasks ?st1 ! i)), ?st1\<lparr>tasks := (tasks ?st1)[i := toggled env2 (tasks ?st1 ! i)]\<rparr>)"
    by (rule toggleTask_Some)
  with i assms show ?thesis
    by (simp add: toggleTask_Some)
qed

text \<open>
  Claim C2, as amended. For a task id present in the collection, toggling twice
  returns and stores the original record with a new \<open>updatedAt\<close> and with the status
  \<open>COMPLETED\<close> for a completed task and \<open>TODO\<close> for any other: every field but
  \<open>updatedAt\<close> and \<open>status\<close> is restored, and the status is restored too unless it
  was \<open>IN_PROGRESS\<close> or disagreed with \<open>completed\<close>.
\<close>

theorem toggleTask_twice:
  "find (\<lambda>x. taskId x = tid) (tasks st) = Some t \<longrightarrow>
     fst (toggleTask env2 tid (snd (toggleTask env1 tid st)))
       = Some (t\<lparr>status := (if completed t then COMPLETED else TODO), updatedAt := now env2\<rparr>)
     \<and> find (\<lambda>x. taskId x = tid) (tasks (snd (toggleTask env2 tid (snd (toggleTask env1 tid st)))))
       = Some (t\<lparr>status := (if completed t then COMPLETED else TODO), updatedAt := now env2\<rparr>)
     \<and> length (tasks (snd (toggleTask env2 tid (snd (toggleTask env1 tid st))))) = length (tasks st)"
proof
  assume "find (\<lambda>x. taskId x = tid) (tasks st) = Some t"
  then obtain i where i: "findIndex (\<lambda>x. taskId x = tid) (tasks st) = Some i" and t: "tasks st ! i = t"
    using find_findIndex by fastforce
  let ?t2 = "t\<lparr>status := (if completed t then COMPLETED else TODO), updatedAt := now env2\<rparr>"
  from findIndex_Some [OF i] have "taskId (tasks st ! i) = tid" by simp
  with t have "taskId ?t2 = tid" by simp
  with i have "find (\<lambda>x. taskId x = tid) ((tasks st)[i := ?t2]) = Some ?t2"
    by (simp add: find_update)
  with i t show "fst (toggleTask env2 tid (snd (toggleTask env1 tid st))) = Some ?t2
     \<and> find (\<lambda>x. taskId x = tid) (tasks (snd (toggleTask env2 tid (snd (toggleTask env1 tid st))))) = Some ?t2
     \<and> length (tasks (snd (toggleTask env2 tid (snd (toggleTask env1 tid st))))) = length (tasks st)"
    by (simp add: toggleTask_twice_eq toggled_twice)
qed

theorem toggleTask_twice_witness:
  "find (\<lambda>x. taskId x = ''t1'') (tasks exampleStore) = Some exampleTask
   \<and> fst (toggleTask (exampleEnv\<lparr>now := 7\<rparr>) ''t1'' (snd (toggleTask exampleEnv ''t1'' exampleStore)))
       = Some (exampleTask\<lparr>updatedAt := 7\<rparr>)"
  using toggleTask_twice [of "''t1''" exampleStore exampleTask "exampleEnv\<lparr>now := 7\<rparr>" exampleEnv]
  by (simp add: exampleStore_def exampleTask_def exampleEnv_def)

text \<open>A task in progress comes back from two toggles as a task to do.\<close>

theorem toggleTask_twice_in_progress:
  "find (\<lambda>x. taskId x = ''t1'') [exampleTask\<lparr>status := IN_PROGRESS\<rparr>]
     = Some (exampleTask\<lparr>status := IN_PROGRESS\<rparr>)
   \<and> map_option status
        (fst (toggleTask exampleEnv ''t1''
           (snd (toggleTask exampleEnv ''t1''
              (exampleStore\<lparr>tasks := [exampleTask\<lparr>status := IN_PROGRESS\<rparr>]\<rparr>)))))
       = Some TODO"
  by (simp add: exampleStore_def exampleTask_def exampleEnv_def toggleTask_def updateTask_def
      getTasks_def saveTasks_def spread_def noUpdates_def Let_def)

subsection \<open>Creating a task\<close>

text \<open>
  Claim C6, as amended. \<open>addTask\<close> does not validate the title: for every input,
  the empty title included, it returns a task with the title of the input and appends
  that task to the collection. It has no failure result.
\<close>

theorem addTask_accepts_any_title:
  "title (fst (addTask env input st)) = in_title input
   \<and> tasks (snd (addTask env input st)) = tasks st @ [fst (addTask env input st)]"
  by (simp add: addTask_eq newTask_def)

theorem addTask_accepts_any_title_witness:
  "title (fst (addTask exampleEnv exampleInput exampleStore)) = ''B''
   \<and> length (tasks (snd (addTask exampleEnv exampleInput exampleStore))) = 2"
  using addTask_accepts_any_title [of exampleEnv exampleInput exampleStore]
  by (simp add: exampleInput_def exampleStore_def)

text \<open>An input with the empty title is stored like any other.\<close>

theorem addTask_empty_title_added:
  "in_title (exampleInput\<lparr>in_title := []\<rparr>) = []
   \<and> title (fst (addTask exampleEnv (exampleInput\<lparr>in_title := []\<rparr>) exampleStore)) = []
   \<and> tasks (snd (addTask exampleEnv (exampleInput\<lparr>in_title := []\<rparr>) exampleStore))
       = [exampleTask, fst (addTask exampleEnv (exampleInput\<lparr>in_title := []\<rparr>) exampleStore)]"
  by (simp add: addTask_def Let_def getDefaultProject_def getProjects_def projectExists_def
      getTasks_def saveTasks_def exampleStore_def exampleInput_def exampleProject_def)

subsection \<open>The project of a task\<close>

lemma fst_getProjects: "fst (getProjects env st) = existingProjects env st"
  by (simp add: getProjects_eq)

lemma fst_getDefaultProject: "fst (getDefaultProject env st) = find isDefault (existingProjects env st)"
  by (simp add: getDefaultProject_eq)

lemma addTask_projectId_fallback:
  assumes "in_projectId input = None
     \<or> (\<exists>p. in_projectId input = Some p \<and> p \<notin> projId ` set (fst (getProjects env st)))"
  shows "projectId (fst (addTask env input st)) = map_option projId (fst (getDefaultProject env st))"
  using assms
  by (auto simp: addTask_eq newTask_def resolvedProjectId_def fst_getProjects fst_getDefaultProject)

lemma updateTask_projectId_fallback:
  assumes i: "findIndex (\<lambda>x. taskId x = tid) (tasks st) = Some i"
    and u: "u_projectId u = Some (Some p)" and p: "p \<noteq> []"
    and ex: "p \<notin> projId ` set (fst (getProjects env st))"
  shows "map_option projectId (fst (updateTask env tid u st))
           = Some (map_option projId (fst (getDefaultProject env st)))"
    and "projectId (tasks (snd (updateTask env tid u st)) ! i)
           = map_option projId (fst (getDefaultProject env st))"
proof -
  from u p ex have "u_projectId (validatedUpdates env u st)
      = Some (map_option projId (find isDefault (existingProjects env st)))"
    by (simp add: validatedUpdates_def fst_getProjects)
  then have pid: "projectId (updatedTask env u st i)
      = map_option projId (fst (getDefaultProject env st))"
    by (simp add: updatedTask_def spread_def fst_getDefaultProject)
  from i pid show "map_option projectId (fst (updateTask env tid u st))
           = Some (map_option projId (fst (getDefaultProject env st)))"
    by (simp add: updateTask_Some)
  from findIndex_Some [OF i] have "i < length (tasks st)" by simp
  with i pid show "projectId (tasks (snd (updateTask env tid u st)) ! i)
           = map_option projId (fst (getDefaultProject env st))"
    by (simp add: updateTask_Some)
qed

text \<open>
  Where the fallback works. A task created from an input whose project id is absent
  or names no existing project gets the id of the default project (no id when there is
  no default project). An update of an existing task whose project id is a non-empty
  string naming no existing project stores the id of the default project.
\<close>

theorem invalid_projectId_falls_back_to_default:
  "(in_projectId input = None
      \<or> (\<exists>p. in_projectId input = Some p \<and> p \<notin> projId ` set (fst (getProjects env st)))
     \<longrightarrow> projectId (fst (addTask env input st)) = map_option projId (fst (getDefaultProject env st)))
   \<and> (findIndex (\<lambda>x. taskId x = tid) (tasks st) = Some i \<and> u_projectId u = Some (Some p)
        \<and> p \<noteq> [] \<and> p \<notin> projId ` set (fst (getProjects env st))
     \<longrightarrow> map_option projectId (fst (updateTask env tid u st))
           = Some (map_option projId (fst (getDefaultProject env st)))
         \<and> projectId (tasks (snd (updateTask env tid u st)) ! i)
           = map_option projId (fst (getDefaultProject env st)))"
  using addTask_projectId_fallback [of input env st] updateTask_projectId_fallback [of tid st i u p env]
  by blast

theorem invalid_projectId_falls_back_to_default_example:
  "in_projectId exampleInput = None
   \<and> ''gone'' \<notin> projId ` set (fst (getProjects exampleEnv exampleStore))
   \<and> findIndex (\<lambda>x. taskId x = ''t1'') [exampleTask\<lparr>projectId := None\<rparr>] = Some 0
   \<and> projectId (fst (addTask exampleEnv exampleInput exampleStore)) = Some ''p1''
   \<and> projectId (fst (addTask exampleEnv (exampleInput\<lparr>in_projectId := Some ''gone''\<rparr>) exampleStore))
       = Some ''p1''
   \<and> map_option projectId (fst (updateTask exampleEnv ''t1''
         (noUpdates\<lparr>u_projectId := Some (Some ''gone'')\<rparr>)
         (exampleStore\<lparr>tasks := [exampleTask\<lparr>projectId := None\<rparr>]\<rparr>)))
       = Some (Some ''p1'')"
  using invalid_projectId_falls_back_to_default [of exampleInput exampleEnv exampleStore]
    invalid_projectId_falls_back_to_default [of "exampleInput\<lparr>in_projectId := Some ''gone''\<rparr>"
      exampleEnv exampleStore]
    invalid_projectId_falls_back_to_default [of exampleInput exampleEnv
      "exampleStore\<lparr>tasks := [exampleTask\<lparr>projectId := None\<rparr>]\<rparr>" "''t1''" 0
      "noUpdates\<lparr>u_projectId := Some (Some ''gone'')\<rparr>" "''gone''"]
  by (simp add: exampleInput_def exampleStore_def exampleProject_def exampleTask_def noUpdates_def
      getProjects_def getDefaultProject_def)

text \<open>
  Claim C7 says that an update whose project id matches no existing project stores
  the id of the default project, as a creation does. \<open>updateTask\<close> validates the
  project id only if it is truthy (\<^verbatim>\<open>updates.projectId && ...\<close>), so the empty
  string, which names no project, is stored as the project id of the task, although
  \<open>addTask\<close> sends the same empty string to the default project \<open>p1\<close>.
\<close>

theorem updateTask_empty_projectId_kept:
  "[] \<notin> projId ` set (fst (getProjects exampleEnv exampleStore))
   \<and> map_option projId (fst (getDefaultProject exampleEnv exampleStore)) = Some ''p1''
   \<and> map_option projectId
        (fst (updateTask exampleEnv ''t1'' (noUpdates\<lparr>u_projectId := Some (Some [])\<rparr>) exampleStore))
       = Some (Some [])
   \<and> map projectId
        (tasks (snd (updateTask exampleEnv ''t1'' (noUpdates\<lparr>u_projectId := Some (Some [])\<rparr>)
           exampleStore)))
       = [Some []]
   \<and> projectId (fst (addTask exampleEnv (exampleInput\<lparr>in_projectId := Some []\<rparr>) exampleStore))
       = Some ''p1''"
  by (simp add: exampleStore_def exampleProject_def exampleTask_def exampleInput_def noUpdates_def
      getProjects_def getDefaultProject_def projectExists_def updateTask_def addTask_def
      getTasks_def saveTasks_def spread_def Let_def)

subsection \<open>Deleting a project\<close>

lemma map_unless_none: "filter P xs = [] \<Longrightarrow> map (\<lambda>x. if P x then f x else x) xs = xs"
  by (induction xs) (auto split: if_splits)

lemma handleProjectDeletion_eq:
  "handleProjectDeletion env pid st =
     (case find isDefault (existingProjects env st) of
        None \<Rightarrow> (False, ensureProjects env st)
      | Some d \<Rightarrow> (True, (ensureProjects env st)\<lparr>tasks := map (reassigned env pid d) (tasks st)\<rparr>))"
proof (cases "find isDefault (existingProjects env st)")
  case None
  then show ?thesis
    by (simp add: handleProjectDeletion_def getDefaultProject_eq)
next
  case (Some d)
  show ?thesis
  proof (cases "filter (\<lambda>task. projectId task = Some pid) (tasks st) = []")
    case True
    then have "map (reassigned env pid d) (tasks st) = tasks st"
      unfolding reassigned_def by (rule map_unless_none)
    with True Some show ?thesis
      by (simp add: handleProjectDeletion_def getDefaultProject_eq getTasks_def Let_def)
  next
    case False
    with Some show ?thesis
      by (simp add: handleProjectDeletion_def getDefaultProject_eq getTasks_def Let_def
          saveTasks_def reassigned_def)
  qed
qed

lemma ProjectStorage_deleteProject_eq:
  "ProjectStorage_deleteProject env pid st =
     (case find (\<lambda>p. projId p = pid) (existingProjects env st) of
        None \<Rightarrow> (False, ensureProjects env st)
      | Some project \<Rightarrow>
          if isDefault project then (False, ensureProjects env st)
          else (True, st\<lparr>projects := filter (\<lambda>p. projId p \<noteq> pid) (existingProjects env st)\<rparr>))"
  by (simp add: ProjectStorage_deleteProject_def getProjects_eq saveProjects_def ensureProjects_def
      split: option.splits)

lemma existingProjects_nonempty: "projects st \<noteq> [] \<Longrightarrow> existingProjects env st = projects st"
  by (simp add: existingProjects_def)

lemma ensureProjects_nonempty: "projects st \<noteq> [] \<Longrightarrow> ensureProjects env st = st"
  by (simp add: ensureProjects_def existingProjects_def)

text \<open>
  Deleting an existing project that is not the default one: its tasks go to the
  default project with a new \<open>updatedAt\<close>, then the project is removed; if every
  task named an existing project before, every task does afterwards.
\<close>

lemma deleteProject_nondefault:
  assumes p: "find (\<lambda>p. projId p = pid) (projects st) = Some p" and nd: "\<not> isDefault p"
    and d: "find isDefault (projects st) = Some d"
  shows "useProjects_deleteProject env pid st =
     (True, st\<lparr>tasks := map (reassigned env pid d) (tasks st),
              projects := filter (\<lambda>p. projId p \<noteq> pid) (projects st)\<rparr>)"
proof -
  from p have ne: "projects st \<noteq> []" by auto
  with p nd d show ?thesis
    by (simp add: useProjects_deleteProject_def handleProjectDeletion_eq
        ProjectStorage_deleteProject_eq existingProjects_nonempty ensureProjects_nonempty
        existingProjects_def)
qed

lemma deleteProject_nondefault_references:
  assumes p: "find (\<lambda>p. projId p = pid) (projects st) = Some p" and nd: "\<not> isDefault p"
    and d: "find isDefault (projects st) = Some d" and neq: "projId d \<noteq> pid"
    and refs: "referencesExist (tasks st) (projects st)"
  shows "referencesExist (tasks (snd (useProjects_deleteProject env pid st)))
           (projects (snd (useProjects_deleteProject env pid st)))"
proof -
  from d have dmem: "d \<in> set (projects st)" using find_Some_mem by fastforce
  have "case projectId (reassigned env pid d task) of None \<Rightarrow> True
        | Some q \<Rightarrow> q \<in> projId ` set (filter (\<lambda>p. projId p \<noteq> pid) (projects st))"
    if "task \<in> set (tasks st)" for task
  proof (cases "projectId task = Some pid")
    case True
    with dmem neq show ?thesis by (simp add: reassigned_def)
  next
    case False
    from refs that have "case projectId task of None \<Rightarrow> True | Some q \<Rightarrow> q \<in> projId ` set (projects st)"
      by (simp add: referencesExist_def list_all_iff)
    with False show ?thesis
      by (auto simp: reassigned_def split: option.splits)
  qed
  then show ?thesis
    by (simp add: deleteProject_nondefault [OF p nd d] referencesExist_def list_all_iff)
qed

text \<open>
  Deleting the default project is refused, and the project list stays as it was. The
  tasks are reassigned before the guard runs, though: every task of the default
  project is written back with a new \<open>updatedAt\<close>.
\<close>

lemma deleteProject_default:
  assumes p: "find (\<lambda>p. projId p = pid) (projects st) = Some p" and dp: "isDefault p"
    and d: "find isDefault (projects st) = Some p"
  shows "useProjects_deleteProject env pid st =
     (False, st\<lparr>tasks := map (\<lambda>task. if projectId task = Some pid
                                     then task\<lparr>updatedAt := now env\<rparr> else task) (tasks st)\<rparr>)"
proof -
  from p have ne: "projects st \<noteq> []" by auto
  from find_Some_mem [OF p] have "projId p = pid" by simp
  then have "reassigned env pid p = (\<lambda>task. if projectId task = Some pid
                                     then task\<lparr>updatedAt := now env\<rparr> else task)"
    by (auto simp: reassigned_def fun_eq_iff)
  with ne p dp d show ?thesis
    by (simp add: useProjects_deleteProject_def handleProjectDeletion_eq
        ProjectStorage_deleteProject_eq existingProjects_nonempty ensureProjects_nonempty)
qed

text \<open>
  Claim C3 says that deleting a default project fails and leaves both collections
  unchanged. On a store with the default project \<open>p1\<close> and one task in it, last
  updated at time 0, \<open>deleteProject\<close> at time 5 returns \<^verbatim>\<open>false\<close> and keeps the
  project, but stores the task with \<open>updatedAt\<close> 5.
\<close>

theorem deleteProject_default_refreshes_tasks:
  "find (\<lambda>p. projId p = ''p1'') (projects exampleStore) = Some exampleProject
   \<and> isDefault exampleProject
   \<and> useProjects_deleteProject exampleEnv ''p1'' exampleStore
       = (False, exampleStore\<lparr>tasks := [exampleTask\<lparr>updatedAt := 5\<rparr>]\<rparr>)
   \<and> tasks (snd (useProjects_deleteProject exampleEnv ''p1'' exampleStore)) \<noteq> tasks exampleStore"
  by (simp add: useProjects_deleteProject_def handleProjectDeletion_def
      ProjectStorage_deleteProject_def getDefaultProject_def getProjects_def getTasks_def
      saveTasks_def Let_def exampleStore_def exampleProject_def exampleTask_def exampleEnv_def)

section \<open>Statistics and the due-date filter\<close>

text \<open>Comparing the midnights of two instants compares their calendar days.\<close>

lemma msPerDay_pos: "0 < msPerDay"
  by (simp add: msPerDay_def)

lemma dateOnly_less_iff: "dateOnly tz a < dateOnly tz b \<longleftrightarrow> dayNumber tz a < dayNumber tz b"
  using msPerDay_pos by (simp add: dateOnly_def)

lemma int_div_less_iff:
  fixes a q D :: int
  assumes "0 < D"
  shows "a div D < q \<longleftrightarrow> a < q * D"
proof -
  define k where "k = a div D"
  define r where "r = a mod D"
  have a: "a = k * D + r" by (simp add: k_def r_def)
  from assms have r: "0 \<le> r" "r < D" by (simp_all add: r_def)
  show ?thesis
  proof
    assume "a div D < q"
    then have "k + 1 \<le> q" by (simp add: k_def)
    with assms have "(k + 1) * D \<le> q * D" by (simp only: mult_right_mono less_imp_le)
    then have "k * D + D \<le> q * D" by (simp add: algebra_simps)
    with a r show "a < q * D" by linarith
  next
    assume l: "a < q * D"
    show "a div D < q"
    proof (rule ccontr)
      assume "\<not> a div D < q"
      then have "q \<le> k" by (simp add: k_def)
      with assms have "q * D \<le> k * D" by (simp only: mult_right_mono less_imp_le)
      with a r l show False by linarith
    qed
  qed
qed

lemma less_dateOnly_iff: "d < dateOnly tz nw \<longleftrightarrow> dayNumber tz d < dayNumber tz nw"
proof -
  have "d < dateOnly tz nw \<longleftrightarrow> d + tz < dayNumber tz nw * msPerDay"
    by (auto simp: dateOnly_def)
  also have "\<dots> \<longleftrightarrow> (d + tz) div msPerDay < dayNumber tz nw"
    using msPerDay_pos by (simp add: int_div_less_iff)
  finally show ?thesis by (simp add: dayNumber_def)
qed

lemma length_filter_not: "length (filter (\<lambda>x. \<not> P x) xs) = length xs - length (filter P xs)"
  using sum_length_filter_compl [of P xs] by simp

lemma overdue_pred: "(case dueDate t of None \<Rightarrow> False | Some d \<Rightarrow> d < x) \<longleftrightarrow> (\<exists>d. dueDate t = Some d \<and> d < x)"
  by (simp split: option.splits)

lemma taskStats_counts:
  "s_total (taskStats nw ts) = length ts
   \<and> s_completed (taskStats nw ts) = length (filter completed ts)
   \<and> s_pending (taskStats nw ts) = s_total (taskStats nw ts) - s_completed (taskStats nw ts)
   \<and> s_overdue (taskStats nw ts)
       = length (filter (\<lambda>t. (\<exists>d. dueDate t = Some d \<and> d < nw) \<and> \<not> completed t) ts)
   \<and> s_highPriority (taskStats nw ts) = length (filter (\<lambda>t. priority t = HIGH \<and> \<not> completed t) ts)"
  by (simp add: taskStats_def length_filter_not overdue_pred)

lemma useTasks_stats_counts:
  "s_total (useTasks_stats tz nw ts) = length ts
   \<and> s_completed (useTasks_stats tz nw ts) = length (filter completed ts)
   \<and> s_pending (useTasks_stats tz nw ts)
       = s_total (useTasks_stats tz nw ts) - s_completed (useTasks_stats tz nw ts)
   \<and> s_overdue (useTasks_stats tz nw ts)
       = length (filter (\<lambda>t. (\<exists>d. dueDate t = Some d \<and> dayNumber tz d < dayNumber tz nw)
                              \<and> \<not> completed t) ts)
   \<and> s_highPriority (useTasks_stats tz nw ts)
       = length (filter (\<lambda>t. priority t = HIGH \<and> \<not> completed t) ts)"
  by (simp add: useTasks_stats_def Let_def length_filter_not overdue_pred less_dateOnly_iff)

text \<open>
  Claim C4, as amended. \<open>getTaskStats\<close> and \<open>getTaskStatsByProject\<close> count, over
  the stored tasks and over those of one project: all tasks, the completed ones, the
  pending ones (the total less the completed), the overdue ones (a due date strictly
  earlier than now as a timestamp, and not completed) and the uncompleted ones of high
  priority. The \<open>stats\<close> of the hook \<open>useTasks\<close> has the same four other counts, but
  counts as overdue the uncompleted tasks due before the midnight that starts today:
  those due on an earlier calendar day.
\<close>

theorem task_statistics:
  "getTaskStats env st = taskStats (now env) (tasks st)
   \<and> getTaskStatsByProject env pid st
       = taskStats (now env) (filter (\<lambda>t. projectId t = Some pid) (tasks st))
   \<and> s_total (taskStats nw ts) = length ts
   \<and> s_completed (taskStats nw ts) = length (filter completed ts)
   \<and> s_pending (taskStats nw ts) = s_total (taskStats nw ts) - s_completed (taskStats nw ts)
   \<and> s_overdue (taskStats nw ts)
       = length (filter (\<lambda>t. (\<exists>d. dueDate t = Some d \<and> d < nw) \<and> \<not> completed t) ts)
   \<and> s_highPriority (taskStats nw ts) = length (filter (\<lambda>t. priority t = HIGH \<and> \<not> completed t) ts)
   \<and> s_total (useTasks_stats tz nw ts) = length ts
   \<and> s_completed (useTasks_stats tz nw ts) = length (filter completed ts)
   \<and> s_pending (useTasks_stats tz nw ts)
       = s_total (useTasks_stats tz nw ts) - s_completed (useTasks_stats tz nw ts)
   \<and> s_overdue (useTasks_stats tz nw ts)
       = length (filter (\<lambda>t. (\<exists>d. dueDate t = Some d \<and> dayNumber tz d < dayNumber tz nw)
                              \<and> \<not> completed t) ts)
   \<and> s_highPriority (useTasks_stats tz nw ts)
       = length (filter (\<lambda>t. priority t = HIGH \<and> \<not> completed t) ts)"
  using taskStats_counts [of nw ts] useTasks_stats_counts [of tz nw ts]
  by (simp add: getTaskStats_def getTaskStatsByProject_def getTasksByProject_def getTasks_def)

theorem task_statistics_witness:
  "getTaskStats exampleEnv (exampleStore\<lparr>tasks := exampleStatsTasks\<rparr>)
     = \<lparr>s_total = 5, s_completed = 3, s_pending = 2, s_overdue = 1, s_highPriority = 2\<rparr>
   \<and> s_pending (useTasks_stats 0 100000000 exampleStatsTasks) = 2"
  using task_statistics [of exampleEnv "exampleStore\<lparr>tasks := exampleStatsTasks\<rparr>" "''p1''"
      100000000 exampleStatsTasks 0]
  by (simp add: taskStats_def exampleStatsTasks_def exampleTask_def exampleEnv_def)

text \<open>
  A task due at the midnight that starts today, three hours ago: overdue by its
  timestamp, and not counted by the hook.
\<close>

theorem useTasks_stats_overdue_by_day:
  "dueDate (exampleTask\<lparr>dueDate := Some 86400000\<rparr>) = Some 86400000
   \<and> (86400000 :: int) < 100000000
   \<and> \<not> completed (exampleTask\<lparr>dueDate := Some 86400000\<rparr>)
   \<and> s_overdue (useTasks_stats 0 100000000 [exampleTask\<lparr>dueDate := Some 86400000\<rparr>]) = 0
   \<and> s_overdue (taskStats 100000000 [exampleTask\<lparr>dueDate := Some 86400000\<rparr>]) = 1"
  by (simp add: useTasks_stats_def taskStats_def exampleTask_def dateOnly_def dayNumber_def
      msPerDay_def Let_def)

text \<open>
  The date fields and the constructor. Outside the years 0 to 99 building a date from
  the fields of \<open>d\<close> gives the midnight of the day of \<open>d\<close>; \<open>yearFromDay\<close> is the
  year of ECMAScript, the one whose first day is the last not after the given day.
\<close>

lemma newDate_fields:
  assumes "\<not> (0 \<le> getFullYear tz d \<and> getFullYear tz d \<le> 99)"
  shows "newDate tz (getFullYear tz d) (getMonth tz d) (getDate tz d) = dateOnly tz d"
proof -
  from assms have "(if 0 \<le> getFullYear tz d \<and> getFullYear tz d \<le> 99
      then 1900 + getFullYear tz d else getFullYear tz d) = getFullYear tz d"
    by simp
  then show ?thesis
    by (simp add: newDate_def getDate_def dayWithinYear_def dateOnly_def Let_def)
qed

lemma int_div_bounds:
  fixes x k :: int
  assumes "0 < k"
  shows "k * (x div k) \<le> x" and "x < k * (x div k) + k"
proof -
  have "x = k * (x div k) + x mod k" by simp
  moreover from assms have "0 \<le> x mod k" "x mod k < k" by simp_all
  ultimately show "k * (x div k) \<le> x" and "x < k * (x div k) + k" by linarith+
qed

lemma yearFromDay_correct:
  "dayFromYear (yearFromDay z) \<le> z \<and> z < dayFromYear (yearFromDay z + 1)"
proof -
  define q where "q = (400 * z) div 146097"
  have q: "146097 * q \<le> 400 * z" "400 * z < 146097 * q + 146097"
    unfolding q_def using int_div_bounds [of 146097 "400 * z"] by simp_all
  have lo: "dayFromYear (1970 + q - 1) \<le> z"
  proof -
    have "4 * (q div 4) \<le> q" "q + 68 < 100 * ((q + 68) div 100) + 100"
      "400 * ((q + 368) div 400) \<le> q + 368"
      using int_div_bounds [of 4 q] int_div_bounds [of 100 "q + 68"]
        int_div_bounds [of 400 "q + 368"] by simp_all
    with q show ?thesis by (simp add: dayFromYear_def)
  qed
  have hi: "z < dayFromYear (1970 + q + 2)"
  proof -
    have "q + 3 < 4 * ((q + 3) div 4) + 4" "100 * ((q + 71) div 100) \<le> q + 71"
      "q + 371 < 400 * ((q + 371) div 400) + 400"
      using int_div_bounds [of 4 "q + 3"] int_div_bounds [of 100 "q + 71"]
        int_div_bounds [of 400 "q + 371"] by simp_all
    with q show ?thesis by (simp add: dayFromYear_def)
  qed
  have y: "yearFromDay z =
      (if z < dayFromYear (1970 + q) then 1970 + q - 1
       else if dayFromYear (1970 + q + 1) \<le> z then 1970 + q + 1 else 1970 + q)"
    by (simp add: yearFromDay_def Let_def q_def)
  show ?thesis
  proof (cases "z < dayFromYear (1970 + q)")
    case True
    with lo y show ?thesis by simp
  next
    case False
    show ?thesis
    proof (cases "dayFromYear (1970 + q + 1) \<le> z")
      case True
      with False hi y show ?thesis by (simp add: add.commute add.left_commute)
    next
      case b: False
      with False y show ?thesis by simp
    qed
  qed
qed

text \<open>
  The due-date filter where the due date lies outside the years 0 to 99: the bucket
  \<open>OVERDUE\<close> holds the uncompleted tasks due on a calendar day before today's. A task
  without a due date matches \<open>NO_DUE_DATE\<close> and no other bucket, and the filter step
  keeps it exactly if the bucket is absent, \<open>ALL_DUE\<close> or \<open>NO_DUE_DATE\<close>.
\<close>

lemma dueDateMatches_overdue:
  assumes "\<And>d. dueDate t = Some d \<Longrightarrow> \<not> (0 \<le> getFullYear tz d \<and> getFullYear tz d \<le> 99)"
  shows "dueDateMatches tz nw OVERDUE t \<longleftrightarrow>
     (\<exists>d. dueDate t = Some d \<and> dayNumber tz d < dayNumber tz nw) \<and> \<not> completed t"
proof (cases "dueDate t")
  case None
  then show ?thesis by (simp add: dueDateMatches_def Let_def)
next
  case (Some d)
  with assms have "newDate tz (getFullYear tz d) (getMonth tz d) (getDate tz d) = dateOnly tz d"
    by (simp add: newDate_fields)
  with Some show ?thesis
    by (simp add: dueDateMatches_def Let_def dateOnly_less_iff)
qed

lemma dueDateMatches_undated:
  "dueDate t = None \<Longrightarrow> dueDateMatches tz nw f t \<longleftrightarrow> f = NO_DUE_DATE"
  by (simp add: dueDateMatches_def Let_def)

lemma applyDueDateFilter_undated:
  assumes "dueDate t = None"
  shows "t \<in> set (applyDueDateFilter tz nw fo ts) \<longleftrightarrow>
     t \<in> set ts \<and> (fo = None \<or> fo = Some ALL_DUE \<or> fo = Some NO_DUE_DATE)"
proof (cases fo)
  case None
  then show ?thesis by (simp add: applyDueDateFilter_def)
next
  case (Some b)
  with assms show ?thesis
    by (auto simp: applyDueDateFilter_def dueDateMatches_undated)
qed

text \<open>The dates of the examples, read with the clock at UTC.\<close>

lemma example_today: "dateOnly 0 100000000 = 86400000 \<and> dayNumber 0 100000000 = 1"
  by (simp add: dateOnly_def dayNumber_def msPerDay_def)

lemma example_yesterday:
  "newDate 0 (getFullYear 0 1000) (getMonth 0 1000) (getDate 0 1000) = 0"
proof -
  have dn: "dayNumber 0 1000 = 0"
    by (simp add: dayNumber_def msPerDay_def)
  then have "getFullYear 0 1000 = 1970"
    by (simp add: getFullYear_def yearFromDay_def dayFromYear_def Let_def)
  then have "newDate 0 (getFullYear 0 1000) (getMonth 0 1000) (getDate 0 1000) = dateOnly 0 1000"
    by (intro newDate_fields) simp
  also from dn have "dateOnly 0 1000 = 0"
    by (simp add: dateOnly_def)
  finally show ?thesis .
qed

lemma example_tomorrow:
  "newDate 0 (getFullYear 0 172800005) (getMonth 0 172800005) (getDate 0 172800005) = 172800000"
proof -
  have dn: "dayNumber 0 172800005 = 2"
    by (simp add: dayNumber_def msPerDay_def)
  then have "getFullYear 0 172800005 = 1970"
    by (simp add: getFullYear_def yearFromDay_def dayFromYear_def Let_def)
  then have "newDate 0 (getFullYear 0 172800005) (getMonth 0 172800005) (getDate 0 172800005)
      = dateOnly 0 172800005"
    by (intro newDate_fields) simp
  also from dn have "dateOnly 0 172800005 = 172800000"
    by (simp add: dateOnly_def msPerDay_def)
  finally show ?thesis .
qed



text \<open>
  Of a task due yesterday, a task due tomorrow and a completed task without a due
  date, the bucket \<open>OVERDUE\<close> keeps the first.
\<close>

lemma dueDate_filter_scenario:
  "applyDueDateFilter 0 100000000 (Some OVERDUE) exampleDueTasks = [exampleTask\<lparr>dueDate := Some 1000\<rparr>]"
  by (simp add: applyDueDateFilter_def dueDateMatches_def exampleDueTasks_def exampleTask_def
      example_today example_yesterday example_tomorrow)


end
